theory Spec2Isabelle
  imports Main
begin

section \<open>Data model\<close>

text \<open>
  The values the authentication context and the pages exchange. A JavaScript value that
  may be \<^verbatim>\<open>null\<close> or \<^verbatim>\<open>undefined\<close> is an \<open>option\<close>; the rows of the
  backend tables are records with the columns the code reads. The column \<^verbatim>\<open>id\<close> is
  written \<open>id_user\<close>, \<open>id_profile\<close>, \<open>id_tenant\<close>, and \<^verbatim>\<open>session.user\<close> is
  \<open>user_session\<close>.
\<close>

record user =
  id_user :: string

record session =
  access_token :: string
  user_session :: "user option"

record profile =
  id_profile :: string
  role :: "string option"
  tenant_id :: "string option"

record tenant_row =
  id_tenant :: string
  subscription_plan :: string

text \<open>The five \<^verbatim>\<open>useState\<close> cells of \<^verbatim>\<open>AuthProvider\<close>.\<close>

record auth_state =
  user :: "user option"
  session :: "session option"
  profile :: "profile option"
  tenantId :: "string option"
  loading :: bool

text \<open>The context \<^verbatim>\<open>value\<close>: the state and the two derived flags.\<close>

record auth_context = auth_state +
  isAdmin :: bool
  isRestaurantOwner :: bool

text \<open>
  JavaScript truthiness of a \<^verbatim>\<open>string | null | undefined\<close>: \<^verbatim>\<open>null\<close>,
  \<^verbatim>\<open>undefined\<close> and the empty string are falsy.
\<close>

definition truthy :: "string option \<Rightarrow> bool" where
  "truthy v = (case v of None \<Rightarrow> False | Some s \<Rightarrow> s \<noteq> [])"

text \<open>A value substituted in a template literal: \<^verbatim>\<open>undefined\<close> prints as its name.\<close>

definition template_str :: "string option \<Rightarrow> string" where
  "template_str v = (case v of None \<Rightarrow> ''undefined'' | Some s \<Rightarrow> s)"

section \<open>Role constants and derived flags\<close>

text \<open>\<^verbatim>\<open>USER_ROLES\<close> of \<^verbatim>\<open>src/lib/constants.ts\<close>.\<close>

definition SUPER_ADMIN :: string where
  "SUPER_ADMIN = ''super_admin''"

definition RESTAURANT_OWNER :: string where
  "RESTAURANT_OWNER = ''restaurant_owner''"

text \<open>\<^verbatim>\<open>profile?.role\<close>: \<^verbatim>\<open>undefined\<close> when there is no profile.\<close>

definition role_of :: "profile option \<Rightarrow> string option" where
  "role_of p = (case p of None \<Rightarrow> None | Some q \<Rightarrow> role q)"

text \<open>
  The first variant of \<^verbatim>\<open>useAuth.tsx\<close> compares with the constants, the second with
  string literals.
\<close>

definition isAdmin1 :: "profile option \<Rightarrow> bool" where
  "isAdmin1 p = (role_of p = Some SUPER_ADMIN)"

definition isRestaurantOwner1 :: "profile option \<Rightarrow> bool" where
  "isRestaurantOwner1 p = (role_of p = Some RESTAURANT_OWNER)"

definition isAdmin2 :: "profile option \<Rightarrow> bool" where
  "isAdmin2 p = (role_of p = Some ''super_admin'')"

definition isRestaurantOwner2 :: "profile option \<Rightarrow> bool" where
  "isRestaurantOwner2 p = (role_of p = Some ''restaurant_owner'')"

text \<open>The \<^verbatim>\<open>value\<close> object handed to the context provider, in each variant.\<close>

definition value1 :: "auth_state \<Rightarrow> auth_context" where
  "value1 st = auth_state.extend st
     \<lparr>isAdmin = isAdmin1 (profile st), isRestaurantOwner = isRestaurantOwner1 (profile st)\<rparr>"

definition value2 :: "auth_state \<Rightarrow> auth_context" where
  "value2 st = auth_state.extend st
     \<lparr>isAdmin = isAdmin2 (profile st), isRestaurantOwner = isRestaurantOwner2 (profile st)\<rparr>"

section \<open>The POS page guard\<close>

text \<open>
  What the page component returns: one of its five screens, or a redirect.
\<close>

datatype view =
    LoadingSpinner
  | LoadingTimeoutScreen
  | Navigate string
  | RestaurantNotFound
  | POSDashboard

text \<open>The page's own inputs: the route parameter and its three state cells.\<close>

record pos_page =
  slug :: "string option"
  tenant :: "tenant_row option"
  checkingSubscription :: bool
  loadingTimeout :: bool

text \<open>
  The render function of the page as of \<^verbatim>\<open>src/unnamed/part_001\<close>: the timeout screen
  shows only while something is still loading.
\<close>

definition POSSystem :: "auth_context \<Rightarrow> pos_page \<Rightarrow> view" where
  "POSSystem ctx pg =
    (let isStillLoading = (loading ctx \<or> checkingSubscription pg) \<and> \<not> loadingTimeout pg;
         shouldShowTimeout = loadingTimeout pg \<and> (loading ctx \<or> checkingSubscription pg)
     in
     if isStillLoading then LoadingSpinner
     else if shouldShowTimeout then LoadingTimeoutScreen
     else if user ctx = None then Navigate ''/auth''
     else
       (case (if \<not> isAdmin ctx then tenant pg else None) of
          Some t \<Rightarrow>
            if subscription_plan t \<noteq> ''premium''
            then Navigate (''/pos-access/'' @ template_str (slug pg))
            else if isRestaurantOwner ctx \<and> truthy (tenantId ctx)
                    \<and> Some (id_tenant t) \<noteq> tenantId ctx
            then Navigate ''/dashboard''
            else POSDashboard
        | None \<Rightarrow>
            if tenant pg = None \<and> \<not> checkingSubscription pg \<and> truthy (slug pg)
            then RestaurantNotFound
            else POSDashboard))"

text \<open>
  The render function as of \<^verbatim>\<open>src/pages/POSSystem.tsx\<close>: once the page timer has
  fired, the timeout screen shows whatever the loading flags say.
\<close>

definition POSSystem_tsx :: "auth_context \<Rightarrow> pos_page \<Rightarrow> view" where
  "POSSystem_tsx ctx pg =
    (if (loading ctx \<or> checkingSubscription pg) \<and> \<not> loadingTimeout pg then LoadingSpinner
     else if loadingTimeout pg then LoadingTimeoutScreen
     else if user ctx = None then Navigate ''/auth''
     else
       (case (if \<not> isAdmin ctx then tenant pg else None) of
          Some t \<Rightarrow>
            if subscription_plan t \<noteq> ''premium''
            then Navigate (''/pos-access/'' @ template_str (slug pg))
            else if isRestaurantOwner ctx \<and> truthy (tenantId ctx)
                    \<and> Some (id_tenant t) \<noteq> tenantId ctx
            then Navigate ''/dashboard''
            else POSDashboard
        | None \<Rightarrow>
            if tenant pg = None \<and> \<not> checkingSubscription pg \<and> truthy (slug pg)
            then RestaurantNotFound
            else POSDashboard))"

section \<open>Promises and the timeout wrapper\<close>

text \<open>
  A promise settles at most once, with a value or with a rejection reason. On the
  single-threaded event loop every callback runs to completion, so a run is a sequence of
  callbacks. The fate of a promise is the time (in milliseconds after its creation) at
  which it settles and how, or \<open>None\<close> when it never settles.
\<close>

datatype ('a, 'e) settlement = Resolved 'a | Rejected 'e

type_synonym ('a, 'e) fate = "(nat \<times> ('a, 'e) settlement) option"

text \<open>
  The \<^verbatim>\<open>resolve\<close> and \<^verbatim>\<open>reject\<close> functions of a \<^verbatim>\<open>new Promise\<close>: the first
  call settles the promise, every later call is ignored.
\<close>

definition settle :: "nat \<Rightarrow> ('a, 'e) settlement \<Rightarrow> ('a, 'e) fate \<Rightarrow> ('a, 'e) fate" where
  "settle t s p = (case p of None \<Rightarrow> Some (t, s) | Some x \<Rightarrow> Some x)"

text \<open>
  \<^verbatim>\<open>withTimeout\<close> of \<^verbatim>\<open>src/utils/promise.ts\<close>. Its state is the promise it returns
  (\<open>wrapper\<close>) and whether the timer \<open>timeoutId\<close> is still scheduled. Two callbacks
  can run: the timer's, which rejects with the timeout error, and the reaction chain on
  the wrapped promise (\<^verbatim>\<open>.then(resolve).catch(reject).finally(clearTimeout)\<close>), which
  passes the promise's own outcome on and clears the timer. A cleared timer never fires.
\<close>

record ('a, 'e) timeout_race =
  wrapper :: "('a, 'e) fate"
  timeoutId :: bool

datatype ('a, 'e) race_event = OpSettles nat "('a, 'e) settlement" | TimerFires nat

definition withTimeout_init :: "('a, 'e) timeout_race" where
  "withTimeout_init = \<lparr>wrapper = None, timeoutId = True\<rparr>"

fun race_step :: "'e \<Rightarrow> ('a, 'e) race_event \<Rightarrow> ('a, 'e) timeout_race \<Rightarrow> ('a, 'e) timeout_race" where
  "race_step timeoutError (TimerFires t) r =
     (if timeoutId r
      then r\<lparr>wrapper := settle t (Rejected timeoutError) (wrapper r), timeoutId := False\<rparr>
      else r)"
| "race_step timeoutError (OpSettles t (Resolved v)) r =
     r\<lparr>wrapper := settle t (Resolved v) (wrapper r), timeoutId := False\<rparr>"
| "race_step timeoutError (OpSettles t (Rejected x)) r =
     r\<lparr>wrapper := settle t (Rejected x) (wrapper r), timeoutId := False\<rparr>"

definition race_run :: "'e \<Rightarrow> ('a, 'e) race_event list \<Rightarrow> ('a, 'e) timeout_race" where
  "race_run timeoutError evs = fold (race_step timeoutError) evs withTimeout_init"

text \<open>
  The order in which the event loop runs the two callbacks, from the fate of the wrapped
  promise and the duration \<open>ms\<close>. When both fall on the same instant the source does not
  fix the order; \<open>op_first\<close> is the event loop's choice there.
\<close>

definition schedule :: "bool \<Rightarrow> ('a, 'e) fate \<Rightarrow> nat \<Rightarrow> ('a, 'e) race_event list" where
  "schedule op_first promise ms =
     (case promise of
        None \<Rightarrow> [TimerFires ms]
      | Some (t, s) \<Rightarrow>
          if t < ms \<or> (t = ms \<and> op_first) then [OpSettles t s, TimerFires ms]
          else [TimerFires ms, OpSettles t s])"

definition withTimeout :: "bool \<Rightarrow> ('a, 'e) fate \<Rightarrow> nat \<Rightarrow> 'e \<Rightarrow> ('a, 'e) fate" where
  "withTimeout op_first promise ms timeoutError =
     wrapper (race_run timeoutError (schedule op_first promise ms))"

section \<open>The request deduplication cache, promise-sharing variant\<close>

text \<open>
  \<^verbatim>\<open>useRequestDeduplication\<close> of \<^verbatim>\<open>src/hooks/useRequestDeduplication.tsx\<close>. Promises
  are numbered in the order of their creation. \<open>activeRequests\<close> is the \<^verbatim>\<open>Map\<close> from
  keys to stored promises; \<open>cleanup\<close> holds the pending \<^verbatim>\<open>.finally\<close> callbacks, each
  with the key its closure deletes; \<open>invoked\<close> logs the calls of a \<^verbatim>\<open>requestFn\<close>
  (key, function, promise returned); \<open>settled\<close> holds the outcomes so far. The promise
  of \<^verbatim>\<open>requestFn()\<close> and the one \<^verbatim>\<open>.finally\<close> derives from it carry one number: the
  second settles as the first does, right after the callback has run. A request function
  is an operation of the backend: it returns a promise and does not call back into the
  cache.
\<close>

record ('op, 'a, 'e) dedup =
  activeRequests :: "string \<rightharpoonup> nat"
  cleanup :: "nat \<rightharpoonup> string"
  invoked :: "(string \<times> 'op \<times> nat) list"
  settled :: "nat \<rightharpoonup> ('a, 'e) settlement"
  next_promise :: nat

definition dedup_init :: "('op, 'a, 'e) dedup" where
  "dedup_init = \<lparr>activeRequests = Map.empty, cleanup = Map.empty, invoked = [],
     settled = Map.empty, next_promise = 0\<rparr>"

definition executeRequest ::
  "string \<Rightarrow> 'op \<Rightarrow> ('op, 'a, 'e) dedup \<Rightarrow> nat \<times> ('op, 'a, 'e) dedup" where
  "executeRequest key requestFn d =
     (case activeRequests d key of
        Some existingRequest \<Rightarrow> (existingRequest, d)
      | None \<Rightarrow>
          (let newRequestPromise = next_promise d
           in (newRequestPromise,
               d\<lparr>activeRequests := (activeRequests d)(key \<mapsto> newRequestPromise),
                 cleanup := (cleanup d)(newRequestPromise \<mapsto> key),
                 invoked := invoked d @ [(key, requestFn, newRequestPromise)],
                 next_promise := Suc newRequestPromise\<rparr>)))"

text \<open>
  The promise \<open>p\<close> of a request settles: its \<^verbatim>\<open>.finally\<close> callback deletes the key
  (whatever is stored under it), then the derived promise settles the same way.
\<close>

definition request_settles ::
  "nat \<Rightarrow> ('a, 'e) settlement \<Rightarrow> ('op, 'a, 'e) dedup \<Rightarrow> ('op, 'a, 'e) dedup" where
  "request_settles p s d =
     (case cleanup d p of
        None \<Rightarrow> d
      | Some key \<Rightarrow>
          d\<lparr>activeRequests := (activeRequests d)(key := None),
            cleanup := (cleanup d)(p := None),
            settled := (settled d)(p \<mapsto> s)\<rparr>)"

text \<open>
  A run of the cache: calls of \<^verbatim>\<open>executeRequest\<close> and settlements of request promises,
  in the order the event loop runs them. The result lists, for each call, its key and the
  promise the caller received.
\<close>

datatype ('op, 'a, 'e) dedup_event = Call string 'op | Settles nat "('a, 'e) settlement"

fun dedup_run ::
  "('op, 'a, 'e) dedup_event list \<Rightarrow> ('op, 'a, 'e) dedup
     \<Rightarrow> (string \<times> nat) list \<times> ('op, 'a, 'e) dedup" where
  "dedup_run [] d = ([], d)"
| "dedup_run (Call key requestFn # evs) d =
     (let (p, d1) = executeRequest key requestFn d;
          (rets, d2) = dedup_run evs d1
      in ((key, p) # rets, d2))"
| "dedup_run (Settles p s # evs) d = dedup_run evs (request_settles p s d)"

text \<open>The invocations of a request function made for one key.\<close>

definition calls_of :: "string \<Rightarrow> ('op, 'a, 'e) dedup \<Rightarrow> (string \<times> 'op \<times> nat) list" where
  "calls_of key d = filter (\<lambda>c. fst c = key) (invoked d)"

text \<open>
  What holds of every state the cache reaches: the stored promises are exactly the ones
  whose cleanup is pending, under the key the cleanup deletes, and all are older than the
  next promise.
\<close>

definition dedup_inv :: "('op, 'a, 'e) dedup \<Rightarrow> bool" where
  "dedup_inv d \<longleftrightarrow>
     (\<forall>k p. activeRequests d k = Some p \<longrightarrow> cleanup d p = Some k)
     \<and> (\<forall>p k. cleanup d p = Some k \<longrightarrow> activeRequests d k = Some p)
     \<and> (\<forall>p k. cleanup d p = Some k \<longrightarrow> p < next_promise d)"

section \<open>The request deduplication cache, polling variant\<close>

text \<open>
  \<^verbatim>\<open>useRequestDeduplication\<close> of \<^verbatim>\<open>src/unnamed/part_000\<close>. \<open>activeRequests_p\<close> is the
  \<^verbatim>\<open>Set\<close> of keys in flight; \<open>running\<close> holds the calls suspended at
  \<^verbatim>\<open>await requestFn()\<close> with the key their \<^verbatim>\<open>finally\<close> block deletes;
  \<open>checkInterval\<close> holds the live pollers of the waiting callers, each with the key and
  the \<^verbatim>\<open>requestFn\<close> of its closure; \<open>timers\<close> the 30 second timers not yet fired;
  \<open>forwards\<close> tells which promise a waiting caller's promise follows once its poller has
  issued the request again; \<open>own\<close> holds the promises settled directly (by the request's
  outcome, or by the 30 second timer).
\<close>

record ('op, 'a, 'e) polling =
  activeRequests_p :: "string set"
  running :: "nat \<rightharpoonup> string"
  checkInterval :: "nat \<rightharpoonup> string \<times> 'op"
  timers :: "nat set"
  forwards :: "nat \<rightharpoonup> nat"
  own :: "nat \<rightharpoonup> ('a, 'e) settlement"
  invoked_p :: "(string \<times> 'op \<times> nat) list"
  next_promise_p :: nat

definition polling_init :: "('op, 'a, 'e) polling" where
  "polling_init = \<lparr>activeRequests_p = {}, running = Map.empty, checkInterval = Map.empty,
     timers = {}, forwards = Map.empty, own = Map.empty, invoked_p = [], next_promise_p = 0\<rparr>"

definition executeRequest_p ::
  "string \<Rightarrow> 'op \<Rightarrow> ('op, 'a, 'e) polling \<Rightarrow> nat \<times> ('op, 'a, 'e) polling" where
  "executeRequest_p key requestFn d =
     (let promise = next_promise_p d in
      if key \<in> activeRequests_p d
      then (promise,
            d\<lparr>checkInterval := (checkInterval d)(promise \<mapsto> (key, requestFn)),
              timers := insert promise (timers d),
              next_promise_p := Suc promise\<rparr>)
      else (promise,
            d\<lparr>activeRequests_p := insert key (activeRequests_p d),
              running := (running d)(promise \<mapsto> key),
              invoked_p := invoked_p d @ [(key, requestFn, promise)],
              next_promise_p := Suc promise\<rparr>))"

text \<open>
  The outcome of a promise so far: its own settlement if it has one, else that of the
  promise it follows. A chain of followed promises is shorter than the number of promises
  created, which is the fuel \<open>outcome_p\<close> gives.
\<close>

fun outcome_fuel ::
  "nat \<Rightarrow> ('op, 'a, 'e) polling \<Rightarrow> nat \<Rightarrow> ('a, 'e) settlement option" where
  "outcome_fuel 0 d w = own d w"
| "outcome_fuel (Suc n) d w =
     (case own d w of
        Some s \<Rightarrow> Some s
      | None \<Rightarrow> (case forwards d w of Some q \<Rightarrow> outcome_fuel n d q | None \<Rightarrow> None))"

definition outcome_p :: "('op, 'a, 'e) polling \<Rightarrow> nat \<Rightarrow> ('a, 'e) settlement option" where
  "outcome_p d w = outcome_fuel (next_promise_p d) d w"

text \<open>
  The callbacks of the polling variant: a call; the settlement of a request (the
  \<^verbatim>\<open>finally\<close> block deletes the key, the call returns or rethrows); a tick of a waiting
  caller's poller (when the key is gone it stops the poller and calls
  \<^verbatim>\<open>executeRequest\<close> again, following its result); a waiting caller's 30 second timer
  (it stops the poller and rejects with \<^verbatim>\<open>Error('Request timeout')\<close>, here
  \<open>timeoutError\<close>, which a promise already settled ignores).
\<close>

datatype ('op, 'a, 'e) polling_event =
    P_Call string 'op
  | P_Settles nat "('a, 'e) settlement"
  | P_Tick nat
  | P_Timeout nat

fun polling_step ::
  "'e \<Rightarrow> ('op, 'a, 'e) polling_event \<Rightarrow> ('op, 'a, 'e) polling \<Rightarrow> ('op, 'a, 'e) polling" where
  "polling_step timeoutError (P_Call key requestFn) d = snd (executeRequest_p key requestFn d)"
| "polling_step timeoutError (P_Settles p s) d =
     (case running d p of
        None \<Rightarrow> d
      | Some key \<Rightarrow>
          d\<lparr>activeRequests_p := activeRequests_p d - {key},
            running := (running d)(p := None),
            own := (own d)(p \<mapsto> s)\<rparr>)"
| "polling_step timeoutError (P_Tick w) d =
     (case checkInterval d w of
        None \<Rightarrow> d
      | Some (key, requestFn) \<Rightarrow>
          if key \<in> activeRequests_p d then d
          else (let (q, d1) = executeRequest_p key requestFn
                                (d\<lparr>checkInterval := (checkInterval d)(w := None)\<rparr>)
                in d1\<lparr>forwards := (forwards d1)(w \<mapsto> q)\<rparr>))"
| "polling_step timeoutError (P_Timeout w) d =
     (if w \<in> timers d
      then (let d1 = d\<lparr>timers := timers d - {w},
                      checkInterval := (checkInterval d)(w := None)\<rparr>
            in if outcome_p d1 w = None
               then d1\<lparr>own := (own d1)(w \<mapsto> Rejected timeoutError)\<rparr>
               else d1)
      else d)"

definition polling_run ::
  "'e \<Rightarrow> ('op, 'a, 'e) polling_event list \<Rightarrow> ('op, 'a, 'e) polling" where
  "polling_run timeoutError evs = fold (polling_step timeoutError) evs polling_init"

definition calls_of_p :: "string \<Rightarrow> ('op, 'a, 'e) polling \<Rightarrow> (string \<times> 'op \<times> nat) list" where
  "calls_of_p key d = filter (\<lambda>c. fst c = key) (invoked_p d)"

section \<open>The authentication context\<close>

text \<open>
  \<^verbatim>\<open>AuthProvider\<close> of \<^verbatim>\<open>src/hooks/useAuth.tsx\<close>, which holds two variants of the
  component. Variant 1 (first in the file) fetches the profile without a time bound, looks
  the owner's tenant up inline and arms an 8 second timer; variant 2 wraps the profile
  fetch in \<^verbatim>\<open>withTimeout\<close>, resolves the tenant in a second effect through the
  deduplication cache and arms a 10 second timer.

  An \<^verbatim>\<open>async\<close> function is cut at its \<^verbatim>\<open>await\<close>: the part before it and the part
  after it are two callbacks, each a function on the state cells, and each reads the
  closure variable \<^verbatim>\<open>mounted\<close> as it is when the callback runs. An exception is a
  value: a \<^verbatim>\<open>try\<close> block returns the state it reached and what it threw, if anything;
  \<^verbatim>\<open>catch\<close> and \<^verbatim>\<open>finally\<close> are functions on that pair.
\<close>

datatype err = Error string | PostgrestError string | TypeError string

text \<open>The answer of a backend query, \<^verbatim>\<open>{ data, error }\<close>, and a row of \<^verbatim>\<open>select("id")\<close>.\<close>

record 'a response =
  data :: "'a option"
  error :: "err option"

record tenant_ref =
  id_ref :: string

definition initial_state :: auth_state where
  "initial_state = \<lparr>user = None, session = None, profile = None, tenantId = None, loading = True\<rparr>"

text \<open>\<^verbatim>\<open>session?.user ?? null\<close>, and \<^verbatim>\<open>x || null\<close> on a string.\<close>

definition session_user :: "session option \<Rightarrow> user option" where
  "session_user s = (case s of None \<Rightarrow> None | Some x \<Rightarrow> user_session x)"

definition or_null :: "string option \<Rightarrow> string option" where
  "or_null v = (if truthy v then v else None)"

text \<open>
  How a run of an \<^verbatim>\<open>async\<close> function ends: it returns (its promise resolves) or throws
  (its promise rejects with the error), or it stays suspended at an \<^verbatim>\<open>await\<close> whose
  promise never settles.
\<close>

datatype handler_run = Completed auth_state "err option" | Suspended auth_state

fun state_of :: "handler_run \<Rightarrow> auth_state" where
  "state_of (Completed st thrown) = st"
| "state_of (Suspended st) = st"

text \<open>
  The callback of the global timer, \<^verbatim>\<open>if (mounted && loading) setLoading(false)\<close>. The
  effect runs once, after the first render, so the \<^verbatim>\<open>loading\<close> its closure reads is the
  initial one.
\<close>

definition globalTimeout_fires :: "bool \<Rightarrow> auth_state \<Rightarrow> auth_state" where
  "globalTimeout_fires mounted st =
     (if mounted \<and> loading initial_state then st\<lparr>loading := False\<rparr> else st)"

text \<open>
  The test-only start: with a mock state in local storage the effect copies four of its
  fields and returns; it arms no timer and subscribes to nothing.
\<close>

definition mock_state :: "auth_state \<Rightarrow> auth_state" where
  "mock_state mockState =
     initial_state\<lparr>user := user mockState, profile := profile mockState,
       tenantId := tenantId mockState, loading := loading mockState\<rparr>"

subsection \<open>Variant 1: the auth-change handler with the inline tenant lookup\<close>

text \<open>
  The handler up to its \<^verbatim>\<open>await\<close>; the flag tells whether it goes on to fetch the
  profile.
\<close>

definition onAuthStateChange1_deliver ::
  "bool \<Rightarrow> session option \<Rightarrow> auth_state \<Rightarrow> auth_state \<times> bool" where
  "onAuthStateChange1_deliver mounted sess st =
     (if \<not> mounted then (st, False)
      else
        (let st1 = st\<lparr>session := sess, user := session_user sess\<rparr> in
         if session_user sess = None
         then ((if mounted then st1\<lparr>profile := None, tenantId := None, loading := False\<rparr> else st1),
               False)
         else (st1, True)))"

text \<open>
  The \<^verbatim>\<open>try\<close> block from the \<^verbatim>\<open>await\<close> on. A rejected fetch throws at the
  \<^verbatim>\<open>await\<close>; an answer without error and without row throws a \<^verbatim>\<open>TypeError\<close> at
  \<^verbatim>\<open>profileData.role\<close>, after \<^verbatim>\<open>setProfile\<close>. The third component is the owner whose
  tenant the detached lookup asks for, if one is started.
\<close>

definition onAuthStateChange1_try ::
  "bool \<Rightarrow> (profile response, err) settlement \<Rightarrow> auth_state
     \<Rightarrow> auth_state \<times> err option \<times> string option" where
  "onAuthStateChange1_try mounted outcome st =
     (case outcome of
        Rejected e \<Rightarrow> (st, Some e, None)
      | Resolved r \<Rightarrow>
          if \<not> mounted then (st, None, None)
          else
            (case error r of
               Some e \<Rightarrow> (st\<lparr>profile := None, loading := False\<rparr>, None, None)
             | None \<Rightarrow>
                 (let st1 = st\<lparr>profile := data r\<rparr> in
                  case data r of
                    None \<Rightarrow> (st1, Some (TypeError ''Cannot read properties of null''), None)
                  | Some profileData \<Rightarrow>
                      (st1\<lparr>loading := False\<rparr>, None,
                       if role profileData = Some RESTAURANT_OWNER
                       then Some (id_profile profileData) else None))))"

definition onAuthStateChange1_catch ::
  "bool \<Rightarrow> auth_state \<times> err option \<times> string option
     \<Rightarrow> auth_state \<times> err option \<times> string option" where
  "onAuthStateChange1_catch mounted r =
     (case r of
        (st, None, lookup) \<Rightarrow> (st, None, lookup)
      | (st, Some e, lookup) \<Rightarrow>
          ((if mounted then st\<lparr>profile := None, loading := False\<rparr> else st), None, lookup))"

definition onAuthStateChange1_resume ::
  "bool \<Rightarrow> (profile response, err) settlement \<Rightarrow> auth_state
     \<Rightarrow> auth_state \<times> err option \<times> string option" where
  "onAuthStateChange1_resume mounted outcome st =
     onAuthStateChange1_catch mounted (onAuthStateChange1_try mounted outcome st)"

text \<open>
  The detached lookup, from its \<^verbatim>\<open>await\<close> on: it reads \<^verbatim>\<open>data\<close> only, and its
  \<^verbatim>\<open>catch\<close> logs.
\<close>

definition tenant_lookup1 ::
  "bool \<Rightarrow> (tenant_ref response, err) settlement \<Rightarrow> auth_state \<Rightarrow> auth_state \<times> err option" where
  "tenant_lookup1 mounted outcome st =
     (case outcome of
        Rejected e \<Rightarrow> (st, None)
      | Resolved r \<Rightarrow>
          (case data r of
             Some d \<Rightarrow> if mounted then (st\<lparr>tenantId := Some (id_ref d)\<rparr>, None) else (st, None)
           | None \<Rightarrow> (st, None)))"

text \<open>
  One run of the handler with no other callback in between: \<open>mounted\<close> at the delivery,
  \<open>mounted_later\<close> when the fetch settles.
\<close>

definition onAuthStateChange1 ::
  "bool \<Rightarrow> bool \<Rightarrow> session option \<Rightarrow> (profile response, err) fate \<Rightarrow> auth_state
     \<Rightarrow> handler_run" where
  "onAuthStateChange1 mounted mounted_later sess profilePromise st =
     (case onAuthStateChange1_deliver mounted sess st of
        (st1, False) \<Rightarrow> Completed st1 None
      | (st1, True) \<Rightarrow>
          (case profilePromise of
             None \<Rightarrow> Suspended st1
           | Some (t, outcome) \<Rightarrow>
               (case onAuthStateChange1_resume mounted_later outcome st1 of
                  (st2, thrown, lookup) \<Rightarrow> Completed st2 thrown)))"

subsection \<open>Variant 2: the auth-change handler with the time-bounded fetch\<close>

definition onAuthStateChange2_deliver ::
  "bool \<Rightarrow> session option \<Rightarrow> auth_state \<Rightarrow> auth_state \<times> bool" where
  "onAuthStateChange2_deliver mounted sess st =
     (if \<not> mounted then (st, False)
      else
        (let st1 = st\<lparr>session := sess, user := session_user sess\<rparr> in
         if session_user sess = None
         then ((if mounted then st1\<lparr>profile := None, loading := False\<rparr> else st1), False)
         else (st1, True)))"

definition onAuthStateChange2_try ::
  "bool \<Rightarrow> (profile response, err) settlement \<Rightarrow> auth_state \<Rightarrow> auth_state \<times> err option" where
  "onAuthStateChange2_try mounted outcome st =
     (case outcome of
        Rejected e \<Rightarrow> (st, Some e)
      | Resolved r \<Rightarrow>
          if \<not> mounted then (st, None)
          else
            (case error r of
               Some e \<Rightarrow> (st\<lparr>profile := None\<rparr>, None)
             | None \<Rightarrow> (st\<lparr>profile := data r\<rparr>, None)))"

definition onAuthStateChange2_catch ::
  "bool \<Rightarrow> auth_state \<times> err option \<Rightarrow> auth_state \<times> err option" where
  "onAuthStateChange2_catch mounted r =
     (case r of
        (st, None) \<Rightarrow> (st, None)
      | (st, Some e) \<Rightarrow> ((if mounted then st\<lparr>profile := None\<rparr> else st), None))"

definition onAuthStateChange2_finally ::
  "bool \<Rightarrow> auth_state \<times> err option \<Rightarrow> auth_state \<times> err option" where
  "onAuthStateChange2_finally mounted r =
     (case r of (st, thrown) \<Rightarrow> ((if mounted then st\<lparr>loading := False\<rparr> else st), thrown))"

definition onAuthStateChange2_resume ::
  "bool \<Rightarrow> (profile response, err) settlement \<Rightarrow> auth_state \<Rightarrow> auth_state \<times> err option" where
  "onAuthStateChange2_resume mounted outcome st =
     onAuthStateChange2_finally mounted
       (onAuthStateChange2_catch mounted (onAuthStateChange2_try mounted outcome st))"

definition onAuthStateChange2 ::
  "bool \<Rightarrow> bool \<Rightarrow> bool \<Rightarrow> session option \<Rightarrow> (profile response, err) fate \<Rightarrow> auth_state
     \<Rightarrow> handler_run" where
  "onAuthStateChange2 op_first mounted mounted_later sess profilePromise st =
     (case onAuthStateChange2_deliver mounted sess st of
        (st1, False) \<Rightarrow> Completed st1 None
      | (st1, True) \<Rightarrow>
          (case withTimeout op_first profilePromise 3000 (Error ''Profile fetch timed out'') of
             None \<Rightarrow> Suspended st1
           | Some (t, outcome) \<Rightarrow>
               (case onAuthStateChange2_resume mounted_later outcome st1 of
                  (st2, thrown) \<Rightarrow> Completed st2 thrown)))"

subsection \<open>Variant 2: the tenant resolution effect\<close>

text \<open>
  The request function handed to \<^verbatim>\<open>executeRequest\<close>: it throws the error of an answer
  that carries one and returns the row otherwise.
\<close>

definition tenant_request ::
  "(tenant_ref response, err) fate \<Rightarrow> (tenant_ref option, err) fate" where
  "tenant_request backend =
     (case backend of
        None \<Rightarrow> None
      | Some (t, Rejected e) \<Rightarrow> Some (t, Rejected e)
      | Some (t, Resolved r) \<Rightarrow>
          (case error r of Some e \<Rightarrow> Some (t, Rejected e) | None \<Rightarrow> Some (t, Resolved (data r))))"

definition tenant_lookup_key :: "profile \<Rightarrow> string" where
  "tenant_lookup_key p = ''tenant-lookup-'' @ id_profile p"

text \<open>
  The fate of the promise \<^verbatim>\<open>executeRequest\<close> returns: that of the fresh request when the
  function is invoked, that of the stored promise otherwise (\<open>inflight\<close> gives the fates
  of the promises in flight).
\<close>

definition executeRequest_fate ::
  "string \<Rightarrow> 'op \<Rightarrow> ('a, 'e) fate \<Rightarrow> (nat \<Rightarrow> ('a, 'e) fate) \<Rightarrow> ('op, 'a, 'e) dedup
     \<Rightarrow> ('a, 'e) fate \<times> ('op, 'a, 'e) dedup" where
  "executeRequest_fate key requestFn fresh inflight d =
     (case executeRequest key requestFn d of
        (promise, d1) \<Rightarrow>
          ((if activeRequests d key = None then fresh else inflight promise), d1))"

text \<open>
  \<^verbatim>\<open>resolveTenant\<close> up to its \<^verbatim>\<open>await\<close>; the second component is the profile whose
  tenant is looked up, when the function goes on to the lookup.
\<close>

definition resolveTenant_start ::
  "bool \<Rightarrow> profile option \<Rightarrow> auth_state \<Rightarrow> auth_state \<times> profile option" where
  "resolveTenant_start mounted prof st =
     (case (if \<not> mounted then None else prof) of
        None \<Rightarrow> (st\<lparr>tenantId := None\<rparr>, None)
      | Some p \<Rightarrow>
          if truthy (tenant_id p)
          then ((if mounted then st\<lparr>tenantId := tenant_id p\<rparr> else st), None)
          else if role p = Some ''restaurant_owner'' then (st, Some p)
          else ((if mounted then st\<lparr>tenantId := None\<rparr> else st), None))"

definition resolveTenant_try ::
  "bool \<Rightarrow> (tenant_ref option, err) settlement \<Rightarrow> auth_state \<Rightarrow> auth_state \<times> err option" where
  "resolveTenant_try mounted outcome st =
     (case outcome of
        Rejected e \<Rightarrow> (st, Some e)
      | Resolved found \<Rightarrow>
          ((if mounted then st\<lparr>tenantId := or_null (map_option id_ref found)\<rparr> else st), None))"

definition resolveTenant_catch ::
  "bool \<Rightarrow> auth_state \<times> err option \<Rightarrow> auth_state \<times> err option" where
  "resolveTenant_catch mounted r =
     (case r of
        (st, None) \<Rightarrow> (st, None)
      | (st, Some e) \<Rightarrow> ((if mounted then st\<lparr>tenantId := None\<rparr> else st), None))"

definition resolveTenant_resume ::
  "bool \<Rightarrow> (tenant_ref option, err) settlement \<Rightarrow> auth_state \<Rightarrow> auth_state \<times> err option" where
  "resolveTenant_resume mounted outcome st =
     resolveTenant_catch mounted (resolveTenant_try mounted outcome st)"

text \<open>
  One run of the effect for the profile \<open>prof\<close>. The effect sets its own \<^verbatim>\<open>mounted\<close>
  to true and calls \<^verbatim>\<open>resolveTenant\<close> at once; its cleanup, at the next change of the
  profile or at the unmount, sets it to false: \<open>mounted_later\<close> is its value when the
  lookup settles.
\<close>

definition resolveTenant ::
  "bool \<Rightarrow> bool \<Rightarrow> profile option \<Rightarrow> (tenant_ref response, err) fate
     \<Rightarrow> (nat \<Rightarrow> (tenant_ref option, err) fate)
     \<Rightarrow> (string, tenant_ref option, err) dedup \<times> auth_state
     \<Rightarrow> (string, tenant_ref option, err) dedup \<times> handler_run" where
  "resolveTenant op_first mounted_later prof backend inflight ds =
     (case ds of (d, st) \<Rightarrow>
      (case resolveTenant_start True prof st of
         (st1, None) \<Rightarrow> (d, Completed st1 None)
       | (st1, Some p) \<Rightarrow>
           (case executeRequest_fate (tenant_lookup_key p) (id_profile p)
                   (tenant_request backend) inflight d of
              (tenantLookupPromise, d1) \<Rightarrow>
                (case withTimeout op_first tenantLookupPromise 3000
                        (Error ''Tenant lookup timed out'') of
                   None \<Rightarrow> (d1, Suspended st1)
                 | Some (t, outcome) \<Rightarrow>
                     (case resolveTenant_resume mounted_later outcome st1 of
                        (st2, thrown) \<Rightarrow> (d1, Completed st2 thrown))))))"

subsection \<open>The policy and the failures, in the words of the specification\<close>

text \<open>
  The tenant resolution policy as the specification words it, for comparison with the
  code: (a) a direct tenant reference on the profile is used; (b) else, for a restaurant
  owner, the result of the ownership lookup; (c) else no tenant; a failed lookup gives no
  tenant. \<open>tenant_of\<close> reads the identifier off a lookup's outcome.
\<close>

definition tenant_policy ::
  "profile option \<Rightarrow> (string option, err) settlement \<Rightarrow> string option" where
  "tenant_policy prof lookup =
     (case prof of
        None \<Rightarrow> None
      | Some p \<Rightarrow>
          if truthy (tenant_id p) then tenant_id p
          else if role p = Some ''restaurant_owner''
          then (case lookup of Resolved t \<Rightarrow> t | Rejected e \<Rightarrow> None)
          else None)"

definition tenant_of ::
  "(tenant_ref option, err) settlement \<Rightarrow> (string option, err) settlement" where
  "tenant_of outcome =
     (case outcome of
        Resolved found \<Rightarrow> Resolved (or_null (map_option id_ref found))
      | Rejected e \<Rightarrow> Rejected e)"

text \<open>
  A failed profile fetch, as the handler sees it: the awaited promise rejects (the call
  threw, or the timeout wrapper rejected), or it resolves with an error payload.
\<close>

definition fetch_failure :: "(profile response, err) settlement \<Rightarrow> bool" where
  "fetch_failure outcome = (case outcome of Rejected e \<Rightarrow> True | Resolved r \<Rightarrow> error r \<noteq> None)"

subsection \<open>A provider over time\<close>

text \<open>
  A scenario is what the environment does to a mounted provider: whether the test-only
  mock state is present, the auth-change notifications (each with its time, its session,
  the fate of the profile fetch it starts, the event loop's choice should that fetch
  settle exactly at the deadline, and the fate of the tenant lookup variant 1 may start),
  and the time of the unmount, if any. The cleanup at the unmount sets \<^verbatim>\<open>mounted\<close> to
  false, clears the timer and unsubscribes.
\<close>

record notification =
  at :: nat
  delivered :: "session option"
  profile_fetch :: "(profile response, err) fate"
  fetch_first :: bool
  tenant_fetch :: "(tenant_ref response, err) fate"

record scenario =
  mock :: "auth_state option"
  notifications :: "notification list"
  unmount :: "nat option"

definition mounted_at :: "scenario \<Rightarrow> nat \<Rightarrow> bool" where
  "mounted_at sc t = (case unmount sc of None \<Rightarrow> True | Some u \<Rightarrow> t < u)"

datatype callback =
    Deliver "session option"
  | Resume "(profile response, err) settlement"
  | TenantResume "(tenant_ref response, err) settlement"
  | GlobalTimer

fun apply1 :: "bool \<Rightarrow> callback \<Rightarrow> auth_state \<Rightarrow> auth_state" where
  "apply1 mounted (Deliver sess) st = fst (onAuthStateChange1_deliver mounted sess st)"
| "apply1 mounted (Resume outcome) st = fst (onAuthStateChange1_resume mounted outcome st)"
| "apply1 mounted (TenantResume outcome) st = fst (tenant_lookup1 mounted outcome st)"
| "apply1 mounted GlobalTimer st = globalTimeout_fires mounted st"

text \<open>
  The callbacks a notification leads to in variant 1, with their times. Whether the
  handler starts the tenant lookup depends on the fetch's outcome and on \<^verbatim>\<open>mounted\<close>
  only, not on the state.
\<close>

definition callbacks1_of :: "scenario \<Rightarrow> notification \<Rightarrow> (nat \<times> callback) list" where
  "callbacks1_of sc n =
     (if \<not> mounted_at sc (at n) then []
      else (at n, Deliver (delivered n)) #
        (if session_user (delivered n) = None then []
         else
           (case profile_fetch n of
              None \<Rightarrow> []
            | Some (t, outcome) \<Rightarrow>
                (at n + t, Resume outcome) #
                (case snd (snd (onAuthStateChange1_resume (mounted_at sc (at n + t)) outcome
                                  initial_state)) of
                   None \<Rightarrow> []
                 | Some owner \<Rightarrow>
                     (case tenant_fetch n of
                        None \<Rightarrow> []
                      | Some (t', found) \<Rightarrow> [(at n + t + t', TenantResume found)])))))"

definition callbacks1 :: "scenario \<Rightarrow> (nat \<times> callback) list" where
  "callbacks1 sc =
     (if mounted_at sc 8000 then [(8000, GlobalTimer)] else [])
     @ concat (map (callbacks1_of sc) (notifications sc))"

text \<open>
  The state cells at the time \<open>now\<close>: the callbacks due by then have run, in the order
  of their times.
\<close>

definition provider1_at :: "nat \<Rightarrow> scenario \<Rightarrow> auth_state" where
  "provider1_at now sc =
     (case mock sc of
        Some mockState \<Rightarrow> mock_state mockState
      | None \<Rightarrow>
          fold (\<lambda>(t, cb). apply1 (mounted_at sc t) cb)
            (filter (\<lambda>(t, cb). t \<le> now) (sort_key fst (callbacks1 sc)))
            initial_state)"

text \<open>
  Variant 2, first effect: the handler and the timer. The tenant resolution effect is a
  second effect; it writes \<open>tenantId\<close> only, and the first effect never writes that
  cell.
\<close>

fun apply2 :: "bool \<Rightarrow> callback \<Rightarrow> auth_state \<Rightarrow> auth_state" where
  "apply2 mounted (Deliver sess) st = fst (onAuthStateChange2_deliver mounted sess st)"
| "apply2 mounted (Resume outcome) st = fst (onAuthStateChange2_resume mounted outcome st)"
| "apply2 mounted (TenantResume outcome) st = st"
| "apply2 mounted GlobalTimer st = globalTimeout_fires mounted st"

definition callbacks2_of :: "scenario \<Rightarrow> notification \<Rightarrow> (nat \<times> callback) list" where
  "callbacks2_of sc n =
     (if \<not> mounted_at sc (at n) then []
      else (at n, Deliver (delivered n)) #
        (if session_user (delivered n) = None then []
         else
           (case withTimeout (fetch_first n) (profile_fetch n) 3000
                   (Error ''Profile fetch timed out'') of
              None \<Rightarrow> []
            | Some (t, outcome) \<Rightarrow> [(at n + t, Resume outcome)])))"

definition callbacks2 :: "scenario \<Rightarrow> (nat \<times> callback) list" where
  "callbacks2 sc =
     (if mounted_at sc 10000 then [(10000, GlobalTimer)] else [])
     @ concat (map (callbacks2_of sc) (notifications sc))"

text \<open>
  The \<open>loading\<close> cell of variant 2 at the time \<open>now\<close>. Its only writers are the
  callbacks of the first effect and, on the test-only start, the copy of the mock state;
  the cell \<open>tenantId\<close>, which the second effect writes, is not read off this run.
\<close>

definition loading2_at :: "nat \<Rightarrow> scenario \<Rightarrow> bool" where
  "loading2_at now sc =
     (case mock sc of
        Some mockState \<Rightarrow> loading (mock_state mockState)
      | None \<Rightarrow>
          loading
            (fold (\<lambda>(t, cb). apply2 (mounted_at sc t) cb)
               (filter (\<lambda>(t, cb). t \<le> now) (sort_key fst (callbacks2 sc)))
               initial_state))"

section \<open>Properties of the derived flags\<close>

lemma roles_distinct: "SUPER_ADMIN \<noteq> RESTAURANT_OWNER"
  by (simp add: SUPER_ADMIN_def RESTAURANT_OWNER_def)

text \<open>
  Claim C10. In both variants of the context, \<open>isAdmin\<close> and \<open>isRestaurantOwner\<close> are
  never true together, both are false when the profile is null, and each is the equality
  test of the one field \<^verbatim>\<open>profile?.role\<close> against one of two different constants.
\<close>

theorem derived_flags_exclusive:
  "\<not> (isAdmin (value1 st) \<and> isRestaurantOwner (value1 st))
   \<and> \<not> (isAdmin (value2 st) \<and> isRestaurantOwner (value2 st))
   \<and> (profile st = None \<longrightarrow>
        \<not> isAdmin (value1 st) \<and> \<not> isRestaurantOwner (value1 st)
        \<and> \<not> isAdmin (value2 st) \<and> \<not> isRestaurantOwner (value2 st))
   \<and> isAdmin (value1 st) = (role_of (profile st) = Some SUPER_ADMIN)
   \<and> isRestaurantOwner (value1 st) = (role_of (profile st) = Some RESTAURANT_OWNER)
   \<and> isAdmin (value2 st) = (role_of (profile st) = Some ''super_admin'')
   \<and> isRestaurantOwner (value2 st) = (role_of (profile st) = Some ''restaurant_owner'')
   \<and> SUPER_ADMIN \<noteq> RESTAURANT_OWNER"
  by (auto simp: value1_def value2_def auth_state.extend_def isAdmin1_def isAdmin2_def
      isRestaurantOwner1_def isRestaurantOwner2_def role_of_def SUPER_ADMIN_def
      RESTAURANT_OWNER_def)

text \<open>The initial state of the provider: no profile, so neither flag.\<close>

theorem derived_flags_exclusive_witness:
  "profile \<lparr>user = None, session = None, profile = None, tenantId = None, loading = True\<rparr> = None
   \<and> \<not> isAdmin (value1
        \<lparr>user = None, session = None, profile = None, tenantId = None, loading = True\<rparr>)
   \<and> \<not> isRestaurantOwner (value2
        \<lparr>user = None, session = None, profile = None, tenantId = None, loading = True\<rparr>)"
  using derived_flags_exclusive
    [of "\<lparr>user = None, session = None, profile = None, tenantId = None, loading = True\<rparr>"]
  by simp

section \<open>Properties of the POS page guard\<close>

text \<open>
  Claim C7. An authenticated user who is not an admin, on the POS page, once neither the
  context nor the page is loading and the tenant of the slug is known: when that tenant's
  plan is not \<^verbatim>\<open>premium\<close> the page redirects to \<^verbatim>\<open>/pos-access/<slug>\<close>.
\<close>

theorem premium_required_redirect:
  assumes "user ctx \<noteq> None" and "\<not> isAdmin ctx"
    and "\<not> loading ctx" and "\<not> checkingSubscription pg"
    and "slug pg = Some s" and "tenant pg = Some t"
    and "subscription_plan t \<noteq> ''premium''"
  shows "POSSystem ctx pg = Navigate (''/pos-access/'' @ s)"
  using assms by (simp add: POSSystem_def template_str_def)

text \<open>The scenario of the specification: an owner whose own tenant is on the free plan.\<close>

theorem premium_required_redirect_witness:
  "POSSystem
     (value2 \<lparr>user = Some \<lparr>id_user = ''u1''\<rparr>, session = None,
        profile = Some \<lparr>id_profile = ''p1'', role = Some ''restaurant_owner'', tenant_id = None\<rparr>,
        tenantId = Some ''tenant-a'', loading = False\<rparr>)
     \<lparr>slug = Some ''cafe'',
      tenant = Some \<lparr>id_tenant = ''tenant-a'', subscription_plan = ''free''\<rparr>,
      checkingSubscription = False, loadingTimeout = False\<rparr>
   = Navigate ''/pos-access/cafe''"
  using premium_required_redirect
    [of "value2 \<lparr>user = Some \<lparr>id_user = ''u1''\<rparr>, session = None,
        profile = Some \<lparr>id_profile = ''p1'', role = Some ''restaurant_owner'', tenant_id = None\<rparr>,
        tenantId = Some ''tenant-a'', loading = False\<rparr>"
      "\<lparr>slug = Some ''cafe'',
        tenant = Some \<lparr>id_tenant = ''tenant-a'', subscription_plan = ''free''\<rparr>,
        checkingSubscription = False, loadingTimeout = False\<rparr>"
      "''cafe''" "\<lparr>id_tenant = ''tenant-a'', subscription_plan = ''free''\<rparr>"]
  by (simp add: value2_def auth_state.extend_def isAdmin2_def role_of_def)

text \<open>
  Claim C8. An authenticated restaurant owner who is not an admin and whose own
  \<open>tenantId\<close> is the identifier \<open>a\<close> (a resolved identifier: the guard
  \<^verbatim>\<open>tenantId && ...\<close> reads null and the empty string as not resolved), on the POS
  page of a slug whose tenant is another one on the premium plan, is redirected to
  \<^verbatim>\<open>/dashboard\<close>.
\<close>

theorem foreign_tenant_redirect:
  assumes "user ctx \<noteq> None" and "\<not> isAdmin ctx" and "isRestaurantOwner ctx"
    and "tenantId ctx = Some a" and "a \<noteq> []"
    and "\<not> loading ctx" and "\<not> checkingSubscription pg"
    and "tenant pg = Some t" and "subscription_plan t = ''premium''"
    and "id_tenant t \<noteq> a"
  shows "POSSystem ctx pg = Navigate ''/dashboard''"
  using assms by (simp add: POSSystem_def truthy_def)

theorem foreign_tenant_redirect_witness:
  "POSSystem
     (value2 \<lparr>user = Some \<lparr>id_user = ''u1''\<rparr>, session = None,
        profile = Some \<lparr>id_profile = ''p1'', role = Some ''restaurant_owner'', tenant_id = None\<rparr>,
        tenantId = Some ''tenant-a'', loading = False\<rparr>)
     \<lparr>slug = Some ''bistro'',
      tenant = Some \<lparr>id_tenant = ''tenant-b'', subscription_plan = ''premium''\<rparr>,
      checkingSubscription = False, loadingTimeout = False\<rparr>
   = Navigate ''/dashboard''"
  using foreign_tenant_redirect
    [of "value2 \<lparr>user = Some \<lparr>id_user = ''u1''\<rparr>, session = None,
        profile = Some \<lparr>id_profile = ''p1'', role = Some ''restaurant_owner'', tenant_id = None\<rparr>,
        tenantId = Some ''tenant-a'', loading = False\<rparr>"
      "''tenant-a''"
      "\<lparr>slug = Some ''bistro'',
        tenant = Some \<lparr>id_tenant = ''tenant-b'', subscription_plan = ''premium''\<rparr>,
        checkingSubscription = False, loadingTimeout = False\<rparr>"
      "\<lparr>id_tenant = ''tenant-b'', subscription_plan = ''premium''\<rparr>"]
  by (simp add: value2_def auth_state.extend_def isAdmin2_def isRestaurantOwner2_def role_of_def)

text \<open>
  Claim C9. For an admin, the block holding the tier check and the ownership check is
  skipped as a whole: the page never redirects to \<^verbatim>\<open>/pos-access/...\<close> nor to
  \<^verbatim>\<open>/dashboard\<close> (its only redirect is the login one, for a missing user), and what it
  shows depends neither on the plan or identifier of the slug's tenant nor on the admin's
  own \<open>tenantId\<close>.
\<close>

theorem admin_bypass:
  assumes "isAdmin ctx"
  shows "(\<forall>target. POSSystem ctx pg = Navigate target \<longrightarrow> target = ''/auth'')
    \<and> (\<forall>s. POSSystem ctx pg \<noteq> Navigate (''/pos-access/'' @ s))
    \<and> POSSystem ctx pg \<noteq> Navigate ''/dashboard''
    \<and> (user ctx \<noteq> None \<longrightarrow> (\<forall>target. POSSystem ctx pg \<noteq> Navigate target))
    \<and> POSSystem ctx (pg\<lparr>tenant := Some t\<rparr>) = POSSystem ctx (pg\<lparr>tenant := Some t'\<rparr>)
    \<and> POSSystem (ctx\<lparr>tenantId := x\<rparr>) pg = POSSystem ctx pg"
  using assms by (auto simp: POSSystem_def Let_def split: if_splits option.splits)

text \<open>An admin on the page of a free-plan tenant that is not the admin's: the dashboard.\<close>

theorem admin_bypass_witness:
  "isAdmin (value2 \<lparr>user = Some \<lparr>id_user = ''u0''\<rparr>, session = None,
        profile = Some \<lparr>id_profile = ''p0'', role = Some ''super_admin'', tenant_id = None\<rparr>,
        tenantId = Some ''tenant-a'', loading = False\<rparr>)
   \<and> POSSystem
     (value2 \<lparr>user = Some \<lparr>id_user = ''u0''\<rparr>, session = None,
        profile = Some \<lparr>id_profile = ''p0'', role = Some ''super_admin'', tenant_id = None\<rparr>,
        tenantId = Some ''tenant-a'', loading = False\<rparr>)
     \<lparr>slug = Some ''bistro'',
      tenant = Some \<lparr>id_tenant = ''tenant-b'', subscription_plan = ''free''\<rparr>,
      checkingSubscription = False, loadingTimeout = False\<rparr>
   \<noteq> Navigate ''/dashboard''"
  using admin_bypass
    [of "value2 \<lparr>user = Some \<lparr>id_user = ''u0''\<rparr>, session = None,
        profile = Some \<lparr>id_profile = ''p0'', role = Some ''super_admin'', tenant_id = None\<rparr>,
        tenantId = Some ''tenant-a'', loading = False\<rparr>"
      "\<lparr>slug = Some ''bistro'',
        tenant = Some \<lparr>id_tenant = ''tenant-b'', subscription_plan = ''free''\<rparr>,
        checkingSubscription = False, loadingTimeout = False\<rparr>"]
  by (simp add: value2_def auth_state.extend_def isAdmin2_def role_of_def)

text \<open>
  The same three properties for the page as of \<^verbatim>\<open>src/pages/POSSystem.tsx\<close>. There the
  two redirects need the page timer not to have fired: once it has, that variant shows the
  timeout screen even when nothing is loading any more.
\<close>

lemma POSSystem_tsx_premium_required:
  assumes "user ctx \<noteq> None" and "\<not> isAdmin ctx"
    and "\<not> loading ctx" and "\<not> checkingSubscription pg" and "\<not> loadingTimeout pg"
    and "slug pg = Some s" and "tenant pg = Some t"
    and "subscription_plan t \<noteq> ''premium''"
  shows "POSSystem_tsx ctx pg = Navigate (''/pos-access/'' @ s)"
  using assms by (simp add: POSSystem_tsx_def template_str_def)

lemma POSSystem_tsx_foreign_tenant:
  assumes "user ctx \<noteq> None" and "\<not> isAdmin ctx" and "isRestaurantOwner ctx"
    and "tenantId ctx = Some a" and "a \<noteq> []"
    and "\<not> loading ctx" and "\<not> checkingSubscription pg" and "\<not> loadingTimeout pg"
    and "tenant pg = Some t" and "subscription_plan t = ''premium''"
    and "id_tenant t \<noteq> a"
  shows "POSSystem_tsx ctx pg = Navigate ''/dashboard''"
  using assms by (simp add: POSSystem_tsx_def truthy_def)

lemma POSSystem_tsx_admin_bypass:
  assumes "isAdmin ctx"
  shows "\<forall>target. POSSystem_tsx ctx pg = Navigate target \<longrightarrow> target = ''/auth''"
  using assms by (auto simp: POSSystem_tsx_def split: if_splits option.splits)

lemma POSSystem_tsx_timer_fired: "loadingTimeout pg \<Longrightarrow> POSSystem_tsx ctx pg = LoadingTimeoutScreen"
  by (simp add: POSSystem_tsx_def)

lemma POSSystem_agree:
  "\<not> loadingTimeout pg \<or> loading ctx \<or> checkingSubscription pg
   \<Longrightarrow> POSSystem_tsx ctx pg = POSSystem ctx pg"
  by (auto simp: POSSystem_tsx_def POSSystem_def)

section \<open>Properties of the timeout wrapper\<close>

lemma race_step_settled:
  "wrapper r = Some x \<Longrightarrow> wrapper (race_step E ev r) = Some x"
  by (cases "(E, ev, r)" rule: race_step.cases) (simp_all add: settle_def)

lemma race_fold_settled:
  "wrapper r = Some x \<Longrightarrow> wrapper (fold (race_step E) evs r) = Some x"
  by (induction evs arbitrary: r) (simp_all add: race_step_settled)

lemma race_first_op: "wrapper (race_run E (OpSettles t s # evs)) = Some (t, s)"
  unfolding race_run_def
  by (cases s) (simp_all add: race_fold_settled withTimeout_init_def settle_def)

lemma race_first_timer: "wrapper (race_run E (TimerFires t # evs)) = Some (t, Rejected E)"
  unfolding race_run_def
  by (simp add: race_fold_settled withTimeout_init_def settle_def)

text \<open>Once the wrapped promise has settled the timer is cleared: its callback does nothing.\<close>

lemma race_timer_cleared:
  "race_run E [OpSettles t s, TimerFires ms] = race_run E [OpSettles t s]"
  by (cases s) (simp_all add: race_run_def withTimeout_init_def)

text \<open>The wrapper always settles, at the deadline at the latest.\<close>

lemma withTimeout_settles:
  "\<exists>t s. withTimeout b promise ms E = Some (t, s) \<and> t \<le> ms"
proof (cases promise)
  case None
  then show ?thesis
    by (simp add: withTimeout_def schedule_def race_first_timer)
next
  case (Some ts)
  obtain t s where ts: "ts = (t, s)" by (cases ts)
  show ?thesis
  proof (cases "t < ms \<or> (t = ms \<and> b)")
    case True
    then have "schedule b promise ms = [OpSettles t s, TimerFires ms]"
      using Some ts by (auto simp: schedule_def)
    then have "withTimeout b promise ms E = Some (t, s)"
      by (simp add: withTimeout_def race_first_op)
    with True show ?thesis by auto
  next
    case False
    then have "schedule b promise ms = [TimerFires ms, OpSettles t s]"
      using Some ts by (auto simp: schedule_def)
    then have "withTimeout b promise ms E = Some (ms, Rejected E)"
      by (simp add: withTimeout_def race_first_timer)
    then show ?thesis by simp
  qed
qed

text \<open>
  Claim C2. For every wrapped promise, duration \<open>ms\<close> and timeout error \<open>E\<close>: when the
  promise settles before the deadline the wrapper settles with the promise's own outcome
  (at that time); when it has not settled when the deadline elapses (it settles later, or
  never) the wrapper rejects with exactly \<open>E\<close> (at the deadline). In terms of
  callbacks: whichever of the two runs first decides, and no callback that runs later
  changes the outcome; with no callback the wrapper stays pending.
\<close>

theorem withTimeout_race:
  fixes s :: "('a, 'e) settlement" and evs :: "('a, 'e) race_event list"
  shows "(t < ms \<longrightarrow> withTimeout b (Some (t, s)) ms E = Some (t, s))
   \<and> (ms < t \<longrightarrow> withTimeout b (Some (t, s)) ms E = Some (ms, Rejected E))
   \<and> withTimeout b (None :: ('a, 'e) fate) ms E = Some (ms, Rejected E)
   \<and> wrapper (race_run E (OpSettles t s # evs)) = Some (t, s)
   \<and> wrapper (race_run E (TimerFires ms # evs)) = Some (ms, Rejected E)
   \<and> wrapper (race_run E ([] :: ('a, 'e) race_event list)) = None"
proof -
  have early: "withTimeout b (Some (t, s)) ms E = Some (t, s)" if "t < ms"
    using that by (simp add: withTimeout_def schedule_def race_first_op)
  have late: "withTimeout b (Some (t, s)) ms E = Some (ms, Rejected E)" if "ms < t"
    using that by (simp add: withTimeout_def schedule_def race_first_timer)
  have never: "withTimeout b (None :: ('a, 'e) fate) ms E = Some (ms, Rejected E)"
    by (simp add: withTimeout_def schedule_def race_first_timer)
  have idle: "wrapper (race_run E ([] :: ('a, 'e) race_event list)) = None"
    by (simp add: race_run_def withTimeout_init_def)
  show ?thesis
    using early late never idle by (simp add: race_first_op race_first_timer)
qed

text \<open>
  A profile fetch answering after 1.2 s, one answering after 4.5 s, and one that hangs,
  each against the 3 s deadline.
\<close>

theorem withTimeout_race_witness:
  "(1200::nat) < 3000 \<and> (3000::nat) < 4500
   \<and> withTimeout True (Some (1200, Resolved ''row'')) 3000 ''Profile fetch timed out''
       = Some (1200, Resolved ''row'')
   \<and> withTimeout True (Some (4500, Resolved ''row'')) 3000 ''Profile fetch timed out''
       = Some (3000, Rejected ''Profile fetch timed out'')
   \<and> withTimeout True (None :: (string, string) fate) 3000 ''Profile fetch timed out''
       = Some (3000, Rejected ''Profile fetch timed out'')"
  using withTimeout_race [of 1200 3000 True "Resolved ''row''" "''Profile fetch timed out''" "[]"]
    withTimeout_race [of 4500 3000 True "Resolved ''row''" "''Profile fetch timed out''" "[]"]
  by simp

section \<open>Properties of the promise-sharing cache\<close>

lemma dedup_inv_init: "dedup_inv dedup_init"
  by (simp add: dedup_inv_def dedup_init_def)

lemma dedup_invD:
  assumes "dedup_inv d"
  shows "activeRequests d k = Some p \<Longrightarrow> cleanup d p = Some k"
    and "cleanup d p = Some k \<Longrightarrow> activeRequests d k = Some p"
    and "cleanup d p = Some k \<Longrightarrow> p < next_promise d"
  using assms unfolding dedup_inv_def by blast+

lemma dedup_inv_fresh: "dedup_inv d \<Longrightarrow> cleanup d (next_promise d) = None"
  unfolding dedup_inv_def by (metis less_irrefl option.exhaust)

lemma executeRequest_hit:
  "activeRequests d key = Some p \<Longrightarrow> executeRequest key f d = (p, d)"
  by (simp add: executeRequest_def)

lemma executeRequest_miss:
  "activeRequests d key = None \<Longrightarrow>
   executeRequest key f d =
     (next_promise d,
      d\<lparr>activeRequests := (activeRequests d)(key \<mapsto> next_promise d),
        cleanup := (cleanup d)(next_promise d \<mapsto> key),
        invoked := invoked d @ [(key, f, next_promise d)],
        next_promise := Suc (next_promise d)\<rparr>)"
  by (simp add: executeRequest_def Let_def)

lemma dedup_inv_execute:
  assumes "dedup_inv d" shows "dedup_inv (snd (executeRequest key f d))"
proof (cases "activeRequests d key")
  case None
  let ?n = "next_promise d"
  let ?d = "d\<lparr>activeRequests := (activeRequests d)(key \<mapsto> ?n),
                 cleanup := (cleanup d)(?n \<mapsto> key),
                 invoked := invoked d @ [(key, f, ?n)],
                 next_promise := Suc ?n\<rparr>"
  have fresh: "cleanup d ?n = None"
    using assms by (rule dedup_inv_fresh)
  have eq: "snd (executeRequest key f d) = ?d"
    using None by (simp add: executeRequest_miss)
  have 1: "cleanup ?d p = Some k" if "activeRequests ?d k = Some p" for k p
  proof (cases "k = key")
    case True
    then show ?thesis using that by simp
  next
    case False
    then have "activeRequests d k = Some p" using that by simp
    then have "cleanup d p = Some k" by (rule dedup_invD(1)[OF assms])
    moreover from this fresh have "p \<noteq> ?n" by auto
    ultimately show ?thesis by simp
  qed
  have 2: "activeRequests ?d k = Some p" if "cleanup ?d p = Some k" for k p
  proof (cases "p = ?n")
    case True
    then show ?thesis using that by simp
  next
    case False
    then have "cleanup d p = Some k" using that by simp
    then have *: "activeRequests d k = Some p" by (rule dedup_invD(2)[OF assms])
    with None have "k \<noteq> key" by auto
    with * show ?thesis by simp
  qed
  have 3: "p < next_promise ?d" if "cleanup ?d p = Some k" for k p
  proof (cases "p = ?n")
    case True
    then show ?thesis by simp
  next
    case False
    then have "cleanup d p = Some k" using that by simp
    then have "p < ?n" by (rule dedup_invD(3)[OF assms])
    then show ?thesis by simp
  qed
  show ?thesis
    unfolding eq dedup_inv_def using 1 2 3 by blast
next
  case (Some p)
  then show ?thesis using assms by (simp add: executeRequest_def)
qed

lemma dedup_inv_settles:
  assumes "dedup_inv d" shows "dedup_inv (request_settles p s d)"
proof (cases "cleanup d p")
  case None
  then show ?thesis using assms by (simp add: request_settles_def)
next
  case (Some key)
  let ?d = "d\<lparr>activeRequests := (activeRequests d)(key := None),
            cleanup := (cleanup d)(p := None),
            settled := (settled d)(p \<mapsto> s)\<rparr>"
  have eq: "request_settles p s d = ?d"
    using Some by (simp add: request_settles_def)
  have act: "activeRequests d key = Some p"
    using Some by (rule dedup_invD(2)[OF assms])
  have 1: "cleanup ?d q = Some k" if "activeRequests ?d k = Some q" for k q
  proof -
    from that have "k \<noteq> key" and *: "activeRequests d k = Some q"
      by (auto split: if_splits)
    from * have c: "cleanup d q = Some k" by (rule dedup_invD(1)[OF assms])
    with Some \<open>k \<noteq> key\<close> have "q \<noteq> p" by auto
    with c show ?thesis by simp
  qed
  have 2: "activeRequests ?d k = Some q" if "cleanup ?d q = Some k" for k q
  proof -
    from that have "q \<noteq> p" and c: "cleanup d q = Some k"
      by (auto split: if_splits)
    from c have *: "activeRequests d k = Some q" by (rule dedup_invD(2)[OF assms])
    with act \<open>q \<noteq> p\<close> have "k \<noteq> key" by auto
    with * show ?thesis by simp
  qed
  have 3: "q < next_promise ?d" if "cleanup ?d q = Some k" for k q
  proof -
    from that have "cleanup d q = Some k" by (auto split: if_splits)
    then have "q < next_promise d" by (rule dedup_invD(3)[OF assms])
    then show ?thesis by simp
  qed
  show ?thesis
    unfolding eq dedup_inv_def using 1 2 3 by blast
qed

lemma dedup_run_inv:
  "dedup_inv d \<Longrightarrow> dedup_inv (snd (dedup_run evs d))"
proof (induction evs arbitrary: d)
  case Nil
  then show ?case by simp
next
  case (Cons ev evs)
  show ?case
  proof (cases ev)
    case (Call k f)
    have "dedup_inv (snd (executeRequest k f d))"
      using Cons.prems by (rule dedup_inv_execute)
    from Cons.IH[OF this] show ?thesis
      using Call by (simp add: split_beta Let_def)
  next
    case (Settles q s)
    have "dedup_inv (request_settles q s d)"
      using Cons.prems by (rule dedup_inv_settles)
    from Cons.IH[OF this] show ?thesis
      using Settles by simp
  qed
qed

text \<open>A call or a settlement for another key or promise leaves the entry of \<open>key\<close> alone.\<close>

lemma executeRequest_other:
  assumes "k \<noteq> key"
  shows "activeRequests (snd (executeRequest k f d)) key = activeRequests d key"
    and "calls_of key (snd (executeRequest k f d)) = calls_of key d"
  using assms by (cases "activeRequests d k"; simp add: executeRequest_def Let_def calls_of_def)+

lemma request_settles_other:
  assumes "dedup_inv d" and "activeRequests d key = Some p" and "q \<noteq> p"
  shows "activeRequests (request_settles q s d) key = Some p"
proof (cases "cleanup d q")
  case None
  then show ?thesis using assms by (simp add: request_settles_def)
next
  case (Some k)
  then have "activeRequests d k = Some q" by (rule dedup_invD(2)[OF assms(1)])
  with assms(2,3) have "k \<noteq> key" by auto
  then show ?thesis using Some assms(2) by (simp add: request_settles_def)
qed

lemma request_settles_calls: "calls_of key (request_settles q s d) = calls_of key d"
  by (cases "cleanup d q") (simp_all add: request_settles_def calls_of_def)

text \<open>
  While the promise stored under \<open>key\<close> has not settled, every call with that key
  returns it and invokes nothing, whatever else the run does.
\<close>

lemma dedup_batch:
  assumes "dedup_inv d" and "activeRequests d key = Some p"
    and "\<forall>s. Settles p s \<notin> set evs"
  shows "activeRequests (snd (dedup_run evs d)) key = Some p
    \<and> (\<forall>r. (key, r) \<in> set (fst (dedup_run evs d)) \<longrightarrow> r = p)
    \<and> calls_of key (snd (dedup_run evs d)) = calls_of key d"
  using assms
proof (induction evs arbitrary: d)
  case Nil
  then show ?case by simp
next
  case (Cons ev evs)
  have rest: "\<forall>s. Settles p s \<notin> set evs"
    using Cons.prems(3) by auto
  show ?case
  proof (cases ev)
    case (Call k f)
    let ?d1 = "snd (executeRequest k f d)"
    have inv1: "dedup_inv ?d1"
      using Cons.prems(1) by (rule dedup_inv_execute)
    show ?thesis
    proof (cases "k = key")
      case True
      have hit: "executeRequest k f d = (p, d)"
        using True Cons.prems(2) by (simp add: executeRequest_hit)
      from Cons.IH[OF Cons.prems(1,2) rest] show ?thesis
        using Call True hit by (auto simp: split_beta)
    next
      case False
      have act1: "activeRequests ?d1 key = Some p"
        using False Cons.prems(2) by (simp add: executeRequest_other)
      have calls1: "calls_of key ?d1 = calls_of key d"
        using False by (simp add: executeRequest_other)
      from Cons.IH[OF inv1 act1 rest] show ?thesis
        using Call False calls1 by (auto simp: split_beta Let_def)
    qed
  next
    case (Settles q s)
    have "q \<noteq> p" using Cons.prems(3) Settles by auto
    let ?d1 = "request_settles q s d"
    have inv1: "dedup_inv ?d1"
      using Cons.prems(1) by (rule dedup_inv_settles)
    have act1: "activeRequests ?d1 key = Some p"
      using Cons.prems(1,2) \<open>q \<noteq> p\<close> by (rule request_settles_other)
    from Cons.IH[OF inv1 act1 rest] show ?thesis
      using Settles by (simp add: request_settles_calls)
  qed
qed

text \<open>The outcome of a settled promise is never overwritten.\<close>

lemma settled_stable:
  assumes "settled d p = Some s" and "cleanup d p = None" and "p < next_promise d"
  shows "settled (snd (dedup_run evs d)) p = Some s"
  using assms
proof (induction evs arbitrary: d)
  case Nil
  then show ?case by simp
next
  case (Cons ev evs)
  show ?case
  proof (cases ev)
    case (Call k f)
    let ?d1 = "snd (executeRequest k f d)"
    have "settled ?d1 p = Some s" and "cleanup ?d1 p = None" and "p < next_promise ?d1"
      using Cons.prems by (cases "activeRequests d k"; simp add: executeRequest_def Let_def)+
    from Cons.IH[OF this] show ?thesis
      using Call by (simp add: split_beta Let_def)
  next
    case (Settles q s')
    let ?d1 = "request_settles q s' d"
    have "settled ?d1 p = Some s" and "cleanup ?d1 p = None" and "p < next_promise ?d1"
      using Cons.prems by (cases "cleanup d q"; auto simp: request_settles_def)+
    from Cons.IH[OF this] show ?thesis
      using Settles by simp
  qed
qed

text \<open>
  Claim C1. Take any state \<open>d\<close> the cache reaches in which no operation for \<open>key\<close> is
  outstanding, a first call for \<open>key\<close> (it returns the promise \<open>p\<close>), and any run
  \<open>batch\<close> of further calls (with any keys and any request functions) and settlements of
  other promises, made while \<open>p\<close> has not settled. Then every call of the batch with
  \<open>key\<close> receives the same promise \<open>p\<close>; over the first call and the batch the request
  function was invoked exactly once for \<open>key\<close>, by the first call; and when \<open>p\<close>
  settles with \<open>s\<close>, resolved or rejected, the key is evicted and \<open>s\<close> is and stays
  the outcome of \<open>p\<close>, the one promise all those callers hold.
\<close>

theorem dedup_shares_promise:
  assumes reach: "d = snd (dedup_run history dedup_init)"
    and fresh: "activeRequests d key = None"
    and first: "executeRequest key requestFn d = (p, d1)"
    and outstanding: "\<forall>s. Settles p s \<notin> set batch"
    and run: "dedup_run batch d1 = (rets, d2)"
  shows "(\<forall>r. (key, r) \<in> set rets \<longrightarrow> r = p)
    \<and> calls_of key d2 = calls_of key d @ [(key, requestFn, p)]
    \<and> activeRequests d2 key = Some p
    \<and> activeRequests (request_settles p s d2) key = None
    \<and> settled (snd (dedup_run later (request_settles p s d2))) p = Some s"
proof -
  have inv: "dedup_inv d"
    unfolding reach using dedup_inv_init by (rule dedup_run_inv)
  have inv1: "dedup_inv d1"
    using dedup_inv_execute[OF inv, of key requestFn] first by simp
  have p: "p = next_promise d"
    and d1: "d1 = d\<lparr>activeRequests := (activeRequests d)(key \<mapsto> next_promise d),
        cleanup := (cleanup d)(next_promise d \<mapsto> key),
        invoked := invoked d @ [(key, requestFn, next_promise d)],
        next_promise := Suc (next_promise d)\<rparr>"
    using first executeRequest_miss[OF fresh, of requestFn] by auto
  have act1: "activeRequests d1 key = Some p"
    by (simp add: d1 p)
  have calls1: "calls_of key d1 = calls_of key d @ [(key, requestFn, p)]"
    by (simp add: d1 p calls_of_def)
  note b = dedup_batch[OF inv1 act1 outstanding]
  have inv2: "dedup_inv d2"
    using dedup_run_inv[OF inv1, of batch] run by simp
  have act2: "activeRequests d2 key = Some p"
    using b run by simp
  have cl2: "cleanup d2 p = Some key"
    using act2 by (rule dedup_invD(1)[OF inv2])
  have lt2: "p < next_promise d2"
    using cl2 by (rule dedup_invD(3)[OF inv2])
  let ?d3 = "request_settles p s d2"
  have d3: "settled ?d3 p = Some s" "cleanup ?d3 p = None" "p < next_promise ?d3"
    "activeRequests ?d3 key = None"
    using cl2 lt2 by (simp_all add: request_settles_def)
  have "settled (snd (dedup_run later ?d3)) p = Some s"
    using d3(1-3) by (rule settled_stable)
  then show ?thesis
    using b run calls1 act2 d3(4) by simp
qed

text \<open>
  Three callers ask for the tenant of one owner while the first lookup is in flight;
  a lookup for another owner starts and fails in between.
\<close>

theorem dedup_shares_promise_witness:
  "fst (dedup_run [Call ''tenant-lookup-p1'' (2::nat), Call ''tenant-lookup-p2'' 3,
          Settles 1 (Rejected ''offline''), Call ''tenant-lookup-p1'' 4]
        (snd (executeRequest ''tenant-lookup-p1'' 1 (dedup_init :: (nat, string, string) dedup))))
     = [(''tenant-lookup-p1'', 0), (''tenant-lookup-p2'', 1), (''tenant-lookup-p1'', 0)]
   \<and> calls_of ''tenant-lookup-p1''
        (snd (dedup_run [Call ''tenant-lookup-p1'' 2, Call ''tenant-lookup-p2'' 3,
          Settles 1 (Rejected ''offline''), Call ''tenant-lookup-p1'' 4]
        (snd (executeRequest ''tenant-lookup-p1'' 1 (dedup_init :: (nat, string, string) dedup)))))
     = [(''tenant-lookup-p1'', 1, 0)]"
  using dedup_shares_promise
    [of "dedup_init :: (nat, string, string) dedup" "[]" "''tenant-lookup-p1''" 1 0
      "snd (executeRequest ''tenant-lookup-p1'' 1 (dedup_init :: (nat, string, string) dedup))"
      "[Call ''tenant-lookup-p1'' 2, Call ''tenant-lookup-p2'' 3,
          Settles 1 (Rejected ''offline''), Call ''tenant-lookup-p1'' 4]"
      "fst (dedup_run [Call ''tenant-lookup-p1'' 2, Call ''tenant-lookup-p2'' 3,
          Settles 1 (Rejected ''offline''), Call ''tenant-lookup-p1'' 4]
        (snd (executeRequest ''tenant-lookup-p1'' 1 (dedup_init :: (nat, string, string) dedup))))"
      "snd (dedup_run [Call ''tenant-lookup-p1'' 2, Call ''tenant-lookup-p2'' 3,
          Settles 1 (Rejected ''offline''), Call ''tenant-lookup-p1'' 4]
        (snd (executeRequest ''tenant-lookup-p1'' 1 (dedup_init :: (nat, string, string) dedup))))"
      "Resolved ''tenant-a''" "[]"]
  by (simp add: dedup_init_def executeRequest_def request_settles_def calls_of_def Let_def)

section \<open>The polling variant against the promise-sharing variant\<close>

lemmas polling_defs = polling_run_def polling_init_def executeRequest_p_def calls_of_p_def
  outcome_p_def Let_def

lemmas dedup_defs = dedup_init_def executeRequest_def request_settles_def calls_of_def Let_def

text \<open>
  Claim C6. The two variants are not equivalent. In the run where a first caller calls
  with \<open>key\<close> and function \<open>f\<close>, a second caller calls with the same key (function
  \<open>g\<close>) while that request is in flight, the request settles and the second caller's
  poller ticks: the polling variant invokes a request function twice for the key (the
  second caller's promise follows the promise of the call issued again, and settles with
  that request's outcome \<open>s2\<close>, not with the original's \<open>s\<close>), whereas the
  promise-sharing variant on the same calls invokes once and hands both callers one
  promise.
\<close>

theorem polling_reinvokes:
  fixes s s2 :: "('a, 'e) settlement" and f g :: 'op
  shows "key \<in> activeRequests_p (polling_run E [P_Call key f] :: ('op, 'a, 'e) polling)
   \<and> calls_of_p key (polling_run E [P_Call key f, P_Call key g, P_Settles 0 s, P_Tick 1])
       = [(key, f, 0), (key, g, 2)]
   \<and> forwards (polling_run E [P_Call key f, P_Call key g, P_Settles 0 s, P_Tick 1]) 1 = Some 2
   \<and> outcome_p
        (polling_run E [P_Call key f, P_Call key g, P_Settles 0 s, P_Tick 1, P_Settles 2 s2]) 0
       = Some s
   \<and> outcome_p
        (polling_run E [P_Call key f, P_Call key g, P_Settles 0 s, P_Tick 1, P_Settles 2 s2]) 1
       = Some s2
   \<and> (\<exists>evs. 1 < length (calls_of_p key (polling_run E evs :: ('op, 'a, 'e) polling)))
   \<and> calls_of key (snd (dedup_run [Call key f, Call key g, Settles 0 s] dedup_init))
       = [(key, f, 0)]
   \<and> fst (dedup_run [Call key f, Call key g, Settles 0 s] dedup_init) = [(key, 0), (key, 0)]"
proof -
  let ?run = "polling_run E [P_Call key f, P_Call key g, P_Settles 0 s, P_Tick 1]
    :: ('op, 'a, 'e) polling"
  have twice: "calls_of_p key ?run = [(key, f, 0), (key, g, 2)]"
    by (simp add: polling_defs)
  then have "1 < length (calls_of_p key ?run)"
    by simp
  then have ex: "\<exists>evs. 1 < length (calls_of_p key (polling_run E evs :: ('op, 'a, 'e) polling))"
    by blast
  have inflight: "key \<in> activeRequests_p (polling_run E [P_Call key f] :: ('op, 'a, 'e) polling)"
    by (simp add: polling_defs)
  have follows: "forwards ?run 1 = Some 2"
    by (simp add: polling_defs)
  have results: "outcome_p
        (polling_run E [P_Call key f, P_Call key g, P_Settles 0 s, P_Tick 1, P_Settles 2 s2]) 0
       = Some s"
    "outcome_p
        (polling_run E [P_Call key f, P_Call key g, P_Settles 0 s, P_Tick 1, P_Settles 2 s2]) 1
       = Some s2"
    by (simp_all add: polling_defs numeral_3_eq_3)
  have shared: "calls_of key (snd (dedup_run [Call key f, Call key g, Settles 0 s] dedup_init))
       = [(key, f, 0)]"
    "fst (dedup_run [Call key f, Call key g, Settles 0 s] dedup_init) = [(key, 0), (key, 0)]"
    by (simp_all add: dedup_defs)
  show ?thesis
    using inflight twice follows results ex shared by blast
qed

text \<open>Two tenant lookups for one owner: the first answers a row, the repeated one fails.\<close>

theorem polling_reinvokes_witness:
  "calls_of_p ''tenant-lookup-p1''
     (polling_run ''Request timeout''
        [P_Call ''tenant-lookup-p1'' (1::nat), P_Call ''tenant-lookup-p1'' 2,
         P_Settles 0 (Resolved ''tenant-a''), P_Tick 1])
     = [(''tenant-lookup-p1'', 1, 0), (''tenant-lookup-p1'', 2, 2)]
   \<and> outcome_p
     (polling_run ''Request timeout''
        [P_Call ''tenant-lookup-p1'' (1::nat), P_Call ''tenant-lookup-p1'' 2,
         P_Settles 0 (Resolved ''tenant-a''), P_Tick 1, P_Settles 2 (Rejected ''offline'')]) 1
     = Some (Rejected ''offline'')"
  using polling_reinvokes
    [of "''tenant-lookup-p1''" "''Request timeout''" "1::nat" "2::nat" "Resolved ''tenant-a''"
      "Rejected ''offline''"]
  by simp

text \<open>
  In the polling variant a waiting caller whose 30 second timer fires before its poller
  sees the key gone is rejected, and the later tick does nothing.
\<close>

lemma polling_waiter_times_out:
  "outcome_p (polling_run E [P_Call key f, P_Call key g, P_Timeout 1, P_Settles 0 s, P_Tick 1]) 1
     = Some (Rejected E)
   \<and> invoked_p (polling_run E [P_Call key f, P_Call key g, P_Timeout 1, P_Settles 0 s, P_Tick 1])
     = [(key, f, 0)]"
  by (simp add: polling_defs numeral_2_eq_2)

section \<open>Properties of the authentication context\<close>

lemmas handler1_defs = onAuthStateChange1_deliver_def onAuthStateChange1_try_def
  onAuthStateChange1_catch_def onAuthStateChange1_resume_def tenant_lookup1_def
  globalTimeout_fires_def initial_state_def Let_def

lemmas handler2_defs = onAuthStateChange2_deliver_def onAuthStateChange2_try_def
  onAuthStateChange2_catch_def onAuthStateChange2_finally_def onAuthStateChange2_resume_def
  globalTimeout_fires_def initial_state_def Let_def

text \<open>No callback of the provider ever sets \<open>loading\<close> back to true.\<close>

lemma apply1_keeps: "\<not> loading st \<Longrightarrow> \<not> loading (apply1 m cb st)"
  by (cases cb) (auto simp: handler1_defs split: settlement.splits option.splits)

lemma apply2_keeps: "\<not> loading st \<Longrightarrow> \<not> loading (apply2 m cb st)"
  by (cases cb) (auto simp: handler2_defs split: settlement.splits option.splits)

text \<open>
  So a run of callbacks ends with \<open>loading\<close> false once one of them, whatever the
  state it starts from, leaves it false.
\<close>

lemma fold_keeps:
  assumes "\<And>x st. \<not> loading st \<Longrightarrow> \<not> loading (F x st)"
  shows "\<not> loading st \<Longrightarrow> \<not> loading (fold F xs st)"
  by (induction xs arbitrary: st) (simp_all add: assms)

lemma fold_forces:
  assumes keeps: "\<And>x st. \<not> loading st \<Longrightarrow> \<not> loading (F x st)"
    and mem: "x \<in> set xs" and forces: "\<And>st. \<not> loading (F x st)"
  shows "\<not> loading (fold F xs st)"
  using mem
proof (induction xs arbitrary: st)
  case Nil
  then show ?case by simp
next
  case (Cons y ys)
  show ?case
  proof (cases "x = y")
    case True
    have "\<not> loading (F y st)" using forces True by simp
    then have "\<not> loading (fold F ys (F y st))"
      using keeps by (simp add: fold_keeps)
    then show ?thesis by simp
  next
    case False
    then have "x \<in> set ys" using Cons.prems by simp
    then have "\<not> loading (fold F ys (F y st))" by (rule Cons.IH)
    then show ?thesis by simp
  qed
qed

text \<open>The callbacks that leave \<open>loading\<close> false, in a mounted provider.\<close>

lemma deliver1_forces:
  "session_user sess = None \<Longrightarrow> \<not> loading (apply1 True (Deliver sess) st)"
  by (simp add: handler1_defs)

lemma resume1_forces: "\<not> loading (apply1 True (Resume outcome) st)"
  by (auto simp: handler1_defs split: settlement.splits option.splits)

lemma deliver2_forces:
  "session_user sess = None \<Longrightarrow> \<not> loading (apply2 True (Deliver sess) st)"
  by (simp add: handler2_defs)

lemma resume2_forces: "\<not> loading (apply2 True (Resume outcome) st)"
  by (auto simp: handler2_defs split: settlement.splits option.splits)

lemma timer_forces: "\<not> loading (globalTimeout_fires True st)"
  by (simp add: globalTimeout_fires_def initial_state_def)

lemma mounted_at_earlier: "mounted_at sc t \<Longrightarrow> u \<le> t \<Longrightarrow> mounted_at sc u"
  by (auto simp: mounted_at_def split: option.splits)

lemma provider1_forced:
  assumes "mock sc = None"
    and "(t, cb) \<in> set (callbacks1 sc)" and "t \<le> now" and "mounted_at sc t"
    and "\<And>st. \<not> loading (apply1 True cb st)"
  shows "\<not> loading (provider1_at now sc)"
proof -
  let ?F = "\<lambda>(t, cb). apply1 (mounted_at sc t) cb"
  have mem: "(t, cb) \<in> set (filter (\<lambda>(t, cb). t \<le> now) (sort_key fst (callbacks1 sc)))"
    using assms(2,3) by simp
  have keeps: "\<not> loading (?F x st)" if "\<not> loading st" for x st
    using that by (cases x) (simp add: apply1_keeps)
  have forces: "\<not> loading (?F (t, cb) st)" for st
    using assms(4,5) by simp
  have "\<not> loading (fold ?F
            (filter (\<lambda>(t, cb). t \<le> now) (sort_key fst (callbacks1 sc))) initial_state)"
    using keeps mem forces by (rule fold_forces)
  then show ?thesis
    using assms(1) by (simp add: provider1_at_def)
qed

lemma provider2_forced:
  assumes "mock sc = None"
    and "(t, cb) \<in> set (callbacks2 sc)" and "t \<le> now" and "mounted_at sc t"
    and "\<And>st. \<not> loading (apply2 True cb st)"
  shows "\<not> loading2_at now sc"
proof -
  let ?F = "\<lambda>(t, cb). apply2 (mounted_at sc t) cb"
  have mem: "(t, cb) \<in> set (filter (\<lambda>(t, cb). t \<le> now) (sort_key fst (callbacks2 sc)))"
    using assms(2,3) by simp
  have keeps: "\<not> loading (?F x st)" if "\<not> loading st" for x st
    using that by (cases x) (simp add: apply2_keeps)
  have forces: "\<not> loading (?F (t, cb) st)" for st
    using assms(4,5) by simp
  have "\<not> loading (fold ?F
            (filter (\<lambda>(t, cb). t \<le> now) (sort_key fst (callbacks2 sc))) initial_state)"
    using keeps mem forces by (rule fold_forces)
  then show ?thesis
    using assms(1) by (simp add: loading2_at_def)
qed

text \<open>A callback that runs after the unmount changes nothing.\<close>

lemma apply_unmounted: "apply1 False cb st = st" "apply2 False cb st = st"
  by (cases cb; auto simp: handler1_defs handler2_defs split: settlement.splits option.splits)+

lemma fold_skip:
  assumes "\<And>x st. x \<in> set xs \<Longrightarrow> \<not> P x \<Longrightarrow> F x st = st"
  shows "fold F xs st = fold F (filter P xs) st"
  using assms by (induction xs arbitrary: st) auto

lemma run_frozen:
  fixes app :: "bool \<Rightarrow> callback \<Rightarrow> 's \<Rightarrow> 's"
  assumes "unmount sc = Some u" and "u \<le> now"
    and "\<And>cb st. app False cb st = st"
  shows "fold (\<lambda>(t, cb). app (mounted_at sc t) cb) (filter (\<lambda>(t, cb). t \<le> now) xs) st
    = fold (\<lambda>(t, cb). app (mounted_at sc t) cb) (filter (\<lambda>(t, cb). t \<le> u) xs) st"
proof -
  let ?F = "\<lambda>(t, cb). app (mounted_at sc t) cb"
  let ?P = "\<lambda>(t :: nat, cb :: callback). t < u"
  have skip: "?F x s = s" if "\<not> ?P x" for x s
    using that assms(1,3) by (cases x) (simp add: mounted_at_def)
  have "fold ?F (filter (\<lambda>(t, cb). t \<le> now) xs) st
      = fold ?F (filter ?P (filter (\<lambda>(t, cb). t \<le> now) xs)) st"
    by (rule fold_skip) (rule skip)
  also have "filter ?P (filter (\<lambda>(t, cb). t \<le> now) xs)
      = filter ?P (filter (\<lambda>(t, cb). t \<le> u) xs)"
    using assms(2) by (auto intro!: filter_cong)
  also have "fold ?F (filter ?P (filter (\<lambda>(t, cb). t \<le> u) xs)) st
      = fold ?F (filter (\<lambda>(t, cb). t \<le> u) xs) st"
    by (rule fold_skip[symmetric]) (rule skip)
  finally show ?thesis .
qed

lemma provider1_frozen:
  assumes "unmount sc = Some u" and "u \<le> now"
  shows "provider1_at now sc = provider1_at u sc"
proof (cases "mock sc")
  case None
  have "fold (\<lambda>(t, cb). apply1 (mounted_at sc t) cb)
          (filter (\<lambda>(t, cb). t \<le> now) (sort_key fst (callbacks1 sc))) initial_state
      = fold (\<lambda>(t, cb). apply1 (mounted_at sc t) cb)
          (filter (\<lambda>(t, cb). t \<le> u) (sort_key fst (callbacks1 sc))) initial_state"
    using assms by (rule run_frozen) (rule apply_unmounted(1))
  with None show ?thesis by (simp only: provider1_at_def option.case)
next
  case (Some mockState)
  then show ?thesis by (simp only: provider1_at_def option.case)
qed

lemma loading2_frozen:
  assumes "unmount sc = Some u" and "u \<le> now"
  shows "loading2_at now sc = loading2_at u sc"
proof (cases "mock sc")
  case None
  have "fold (\<lambda>(t, cb). apply2 (mounted_at sc t) cb)
          (filter (\<lambda>(t, cb). t \<le> now) (sort_key fst (callbacks2 sc))) initial_state
      = fold (\<lambda>(t, cb). apply2 (mounted_at sc t) cb)
          (filter (\<lambda>(t, cb). t \<le> u) (sort_key fst (callbacks2 sc))) initial_state"
    using assms by (rule run_frozen) (rule apply_unmounted(2))
  with None show ?thesis by (simp only: loading2_at_def option.case)
next
  case (Some mockState)
  then show ?thesis by (simp only: loading2_at_def option.case)
qed

lemma callbacks1_mem:
  "n \<in> set (notifications sc) \<Longrightarrow> x \<in> set (callbacks1_of sc n) \<Longrightarrow> x \<in> set (callbacks1 sc)"
  by (auto simp: callbacks1_def)

lemma callbacks2_mem:
  "n \<in> set (notifications sc) \<Longrightarrow> x \<in> set (callbacks2_of sc n) \<Longrightarrow> x \<in> set (callbacks2 sc)"
  by (auto simp: callbacks2_def)

text \<open>
  Claim C3, as amended. Take a provider started live (not from the test-only mock state,
  which arms no timer and installs no handler). In variant 2, after every notification
  delivered to the handler, if the provider is still mounted 3000 ms after the delivery,
  \<open>loading\<close> is false from then on, whatever the profile fetch does (no session, a
  row, an error payload, an exception, or nothing within the deadline); and earlier when
  there is no session (from the delivery on) or when the fetch settles before the
  deadline and the provider is still mounted then (from then on). In variant 1, which has
  no timeout on the fetch, \<open>loading\<close> is false from the delivery on when there is no
  session and from the settlement of the fetch on, whatever its outcome, if the provider
  is still mounted then. In both variants, whatever the notifications and fetches do, and
  with none at all, \<open>loading\<close> is false from the ceiling of the global timer on
  (10000 ms in variant 2, 8000 ms in variant 1) if the provider is still mounted at the
  ceiling. From the unmount on no callback changes the state: \<open>loading\<close> stays as
  the unmount found it.
\<close>

theorem loading_reaches_false:
  assumes live: "mock sc = None"
  shows "(n \<in> set (notifications sc) \<and> mounted_at sc (at n + 3000) \<and> at n + 3000 \<le> now
          \<longrightarrow> \<not> loading2_at now sc)
    \<and> (n \<in> set (notifications sc) \<and> session_user (delivered n) = None
        \<and> mounted_at sc (at n) \<and> at n \<le> now
          \<longrightarrow> \<not> loading2_at now sc)
    \<and> (n \<in> set (notifications sc) \<and> profile_fetch n = Some (t, outcome) \<and> t < 3000
        \<and> mounted_at sc (at n + t) \<and> at n + t \<le> now
          \<longrightarrow> \<not> loading2_at now sc)
    \<and> (mounted_at sc 10000 \<and> 10000 \<le> now \<longrightarrow> \<not> loading2_at now sc)
    \<and> (n \<in> set (notifications sc) \<and> session_user (delivered n) = None
        \<and> mounted_at sc (at n) \<and> at n \<le> now
          \<longrightarrow> \<not> loading (provider1_at now sc))
    \<and> (n \<in> set (notifications sc) \<and> profile_fetch n = Some (t, outcome)
        \<and> mounted_at sc (at n + t) \<and> at n + t \<le> now
          \<longrightarrow> \<not> loading (provider1_at now sc))
    \<and> (mounted_at sc 8000 \<and> 8000 \<le> now \<longrightarrow> \<not> loading (provider1_at now sc))
    \<and> (unmount sc = Some u \<and> u \<le> now \<longrightarrow>
          loading2_at now sc = loading2_at u sc \<and> provider1_at now sc = provider1_at u sc)"
proof -
  have nosession2: "\<not> loading2_at now sc"
    if "n \<in> set (notifications sc)" "session_user (delivered n) = None"
      "mounted_at sc (at n)" "at n \<le> now"
  proof (rule provider2_forced[OF live _ that(4,3)])
    show "(at n, Deliver (delivered n)) \<in> set (callbacks2 sc)"
      using that(1) by (rule callbacks2_mem) (simp add: callbacks2_of_def that(3))
    show "\<not> loading (apply2 True (Deliver (delivered n)) st)" for st
      using that(2) by (rule deliver2_forces)
  qed
  have settled2: "\<not> loading2_at now sc"
    if "n \<in> set (notifications sc)" "session_user (delivered n) \<noteq> None"
      "withTimeout (fetch_first n) (profile_fetch n) 3000 (Error ''Profile fetch timed out'')
         = Some (u, result)" "mounted_at sc (at n + u)" "at n + u \<le> now" for u result
  proof (rule provider2_forced[OF live _ that(5,4)])
    have "mounted_at sc (at n)"
      using that(4) by (rule mounted_at_earlier) simp
    then have "(at n + u, Resume result) \<in> set (callbacks2_of sc n)"
      by (simp add: callbacks2_of_def that(2,3))
    with that(1) show "(at n + u, Resume result) \<in> set (callbacks2 sc)"
      by (rule callbacks2_mem)
    show "\<not> loading (apply2 True (Resume result) st)" for st
      by (rule resume2_forces)
  qed
  have bounded2: "\<not> loading2_at now sc"
    if n: "n \<in> set (notifications sc)" and m: "mounted_at sc (at n + 3000)"
      and late: "at n + 3000 \<le> now"
  proof (cases "session_user (delivered n) = None")
    case True
    have "mounted_at sc (at n)" using m by (rule mounted_at_earlier) simp
    with n True late show ?thesis by (intro nosession2) simp_all
  next
    case False
    obtain u result where w: "withTimeout (fetch_first n) (profile_fetch n) 3000
        (Error ''Profile fetch timed out'') = Some (u, result)" and u: "u \<le> 3000"
      using withTimeout_settles [of "fetch_first n" "profile_fetch n" 3000
          "Error ''Profile fetch timed out''"]
      by blast
    have "mounted_at sc (at n + u)" using m by (rule mounted_at_earlier) (simp add: u)
    moreover have "at n + u \<le> now" using late u by simp
    ultimately show ?thesis using n False w by (intro settled2)
  qed
  have early2: "\<not> loading2_at now sc"
    if n: "n \<in> set (notifications sc)" and f: "profile_fetch n = Some (t, outcome)"
      and "t < 3000" and m: "mounted_at sc (at n + t)" and reached: "at n + t \<le> now"
  proof (cases "session_user (delivered n) = None")
    case True
    have "mounted_at sc (at n)" using m by (rule mounted_at_earlier) simp
    with n True reached show ?thesis by (intro nosession2) simp_all
  next
    case False
    have "withTimeout (fetch_first n) (profile_fetch n) 3000 (Error ''Profile fetch timed out'')
        = Some (t, outcome)"
      using f \<open>t < 3000\<close> by (simp add: withTimeout_def schedule_def race_first_op)
    with n False show ?thesis using m reached by (rule settled2)
  qed
  have timer2: "\<not> loading2_at now sc" if "mounted_at sc 10000" "10000 \<le> now"
  proof (rule provider2_forced[OF live _ that(2,1)])
    show "(10000, GlobalTimer) \<in> set (callbacks2 sc)"
      by (simp add: callbacks2_def that(1))
    show "\<not> loading (apply2 True GlobalTimer st)" for st
      by (simp add: timer_forces)
  qed
  have nosession1: "\<not> loading (provider1_at now sc)"
    if "n \<in> set (notifications sc)" "session_user (delivered n) = None"
      "mounted_at sc (at n)" "at n \<le> now"
  proof (rule provider1_forced[OF live _ that(4,3)])
    show "(at n, Deliver (delivered n)) \<in> set (callbacks1 sc)"
      using that(1) by (rule callbacks1_mem) (simp add: callbacks1_of_def that(3))
    show "\<not> loading (apply1 True (Deliver (delivered n)) st)" for st
      using that(2) by (rule deliver1_forces)
  qed
  have settled1: "\<not> loading (provider1_at now sc)"
    if n: "n \<in> set (notifications sc)" and f: "profile_fetch n = Some (t, outcome)"
      and m: "mounted_at sc (at n + t)" and reached: "at n + t \<le> now"
  proof (cases "session_user (delivered n) = None")
    case True
    have "mounted_at sc (at n)" using m by (rule mounted_at_earlier) simp
    with n True reached show ?thesis by (intro nosession1) simp_all
  next
    case False
    show ?thesis
    proof (rule provider1_forced[OF live _ reached m])
      have "mounted_at sc (at n)" using m by (rule mounted_at_earlier) simp
      then have "(at n + t, Resume outcome) \<in> set (callbacks1_of sc n)"
        by (simp add: callbacks1_of_def False f)
      with n show "(at n + t, Resume outcome) \<in> set (callbacks1 sc)"
        by (rule callbacks1_mem)
      show "\<not> loading (apply1 True (Resume outcome) st)" for st
        by (rule resume1_forces)
    qed
  qed
  have timer1: "\<not> loading (provider1_at now sc)" if "mounted_at sc 8000" "8000 \<le> now"
  proof (rule provider1_forced[OF live _ that(2,1)])
    show "(8000, GlobalTimer) \<in> set (callbacks1 sc)"
      by (simp add: callbacks1_def that(1))
    show "\<not> loading (apply1 True GlobalTimer st)" for st
      by (simp add: timer_forces)
  qed
  have frozen: "loading2_at now sc = loading2_at u sc \<and> provider1_at now sc = provider1_at u sc"
    if "unmount sc = Some u" "u \<le> now"
    using loading2_frozen[OF that] provider1_frozen[OF that] by (rule conjI)
  have live_part:
    "(n \<in> set (notifications sc) \<and> mounted_at sc (at n + 3000) \<and> at n + 3000 \<le> now
          \<longrightarrow> \<not> loading2_at now sc)
    \<and> (n \<in> set (notifications sc) \<and> session_user (delivered n) = None
        \<and> mounted_at sc (at n) \<and> at n \<le> now
          \<longrightarrow> \<not> loading2_at now sc)
    \<and> (n \<in> set (notifications sc) \<and> profile_fetch n = Some (t, outcome) \<and> t < 3000
        \<and> mounted_at sc (at n + t) \<and> at n + t \<le> now
          \<longrightarrow> \<not> loading2_at now sc)
    \<and> (mounted_at sc 10000 \<and> 10000 \<le> now \<longrightarrow> \<not> loading2_at now sc)
    \<and> (n \<in> set (notifications sc) \<and> session_user (delivered n) = None
        \<and> mounted_at sc (at n) \<and> at n \<le> now
          \<longrightarrow> \<not> loading (provider1_at now sc))
    \<and> (n \<in> set (notifications sc) \<and> profile_fetch n = Some (t, outcome)
        \<and> mounted_at sc (at n + t) \<and> at n + t \<le> now
          \<longrightarrow> \<not> loading (provider1_at now sc))
    \<and> (mounted_at sc 8000 \<and> 8000 \<le> now \<longrightarrow> \<not> loading (provider1_at now sc))"
    using bounded2 nosession2 early2 timer2 nosession1 settled1 timer1 by blast
  have gone_part: "unmount sc = Some u \<and> u \<le> now \<longrightarrow>
          loading2_at now sc = loading2_at u sc \<and> provider1_at now sc = provider1_at u sc"
  proof
    assume "unmount sc = Some u \<and> u \<le> now"
    then have "unmount sc = Some u" and "u \<le> now" by (rule conjunct1, rule conjunct2)
    then show "loading2_at now sc = loading2_at u sc \<and> provider1_at now sc = provider1_at u sc"
      by (rule frozen)
  qed
  show ?thesis
    using conjI[OF live_part gone_part] by (simp only: conj_assoc)
qed

text \<open>
  One notification with a session whose profile fetch never settles, in a provider that
  unmounts after a minute: variant 2 stops loading at the fetch deadline, variant 1 at
  the ceiling of the global timer.
\<close>

theorem loading_reaches_false_witness:
  "\<not> loading2_at 3100
       \<lparr>mock = None,
        notifications = [\<lparr>at = 100,
          delivered = Some \<lparr>access_token = ''jwt'', user_session = Some \<lparr>id_user = ''u1''\<rparr>\<rparr>,
          profile_fetch = None, fetch_first = True, tenant_fetch = None\<rparr>],
        unmount = Some 60000\<rparr>
   \<and> \<not> loading (provider1_at 8000
       \<lparr>mock = None,
        notifications = [\<lparr>at = 100,
          delivered = Some \<lparr>access_token = ''jwt'', user_session = Some \<lparr>id_user = ''u1''\<rparr>\<rparr>,
          profile_fetch = None, fetch_first = True, tenant_fetch = None\<rparr>],
        unmount = Some 60000\<rparr>)"
  using loading_reaches_false
    [of "\<lparr>mock = None,
        notifications = [\<lparr>at = 100,
          delivered = Some \<lparr>access_token = ''jwt'', user_session = Some \<lparr>id_user = ''u1''\<rparr>\<rparr>,
          profile_fetch = None, fetch_first = True, tenant_fetch = None\<rparr>],
        unmount = Some 60000\<rparr>"
      "\<lparr>at = 100,
          delivered = Some \<lparr>access_token = ''jwt'', user_session = Some \<lparr>id_user = ''u1''\<rparr>\<rparr>,
          profile_fetch = None, fetch_first = True, tenant_fetch = None\<rparr>"
      3100 0 "Rejected (Error ''x'')" 60000]
    loading_reaches_false
    [of "\<lparr>mock = None,
        notifications = [\<lparr>at = 100,
          delivered = Some \<lparr>access_token = ''jwt'', user_session = Some \<lparr>id_user = ''u1''\<rparr>\<rparr>,
          profile_fetch = None, fetch_first = True, tenant_fetch = None\<rparr>],
        unmount = Some 60000\<rparr>"
      "\<lparr>at = 100,
          delivered = Some \<lparr>access_token = ''jwt'', user_session = Some \<lparr>id_user = ''u1''\<rparr>\<rparr>,
          profile_fetch = None, fetch_first = True, tenant_fetch = None\<rparr>"
      8000 0 "Rejected (Error ''x'')" 60000]
  by (simp add: mounted_at_def)

lemmas provider_defs = provider1_at_def loading2_at_def callbacks1_def callbacks2_def
  callbacks1_of_def callbacks2_of_def mounted_at_def session_user_def mock_state_def

text \<open>
  The claim as stated fails when the provider unmounts during a transition. A
  notification with a session is delivered at 100 ms, while the provider is mounted; the
  provider unmounts at 500 ms; the profile fetch rejects 900 ms after the delivery. In
  both variants the handler's guards skip \<^verbatim>\<open>setLoading(false)\<close> and the cleanup has
  cleared the global timer: \<open>loading\<close> is still true after a minute. The same holds
  with no notification at all, and on the test-only start from a mock state that is
  loading, where no timer is armed.
\<close>

theorem loading_stuck_after_unmount_counterexample:
  "mounted_at
       \<lparr>mock = None,
        notifications = [\<lparr>at = 100,
          delivered = Some \<lparr>access_token = ''jwt'', user_session = Some \<lparr>id_user = ''u1''\<rparr>\<rparr>,
          profile_fetch = Some (900, Rejected (Error ''Failed to fetch'')), fetch_first = True,
          tenant_fetch = None\<rparr>],
        unmount = Some 500\<rparr> 100
   \<and> loading2_at 60000
       \<lparr>mock = None,
        notifications = [\<lparr>at = 100,
          delivered = Some \<lparr>access_token = ''jwt'', user_session = Some \<lparr>id_user = ''u1''\<rparr>\<rparr>,
          profile_fetch = Some (900, Rejected (Error ''Failed to fetch'')), fetch_first = True,
          tenant_fetch = None\<rparr>],
        unmount = Some 500\<rparr>
   \<and> loading (provider1_at 60000
       \<lparr>mock = None,
        notifications = [\<lparr>at = 100,
          delivered = Some \<lparr>access_token = ''jwt'', user_session = Some \<lparr>id_user = ''u1''\<rparr>\<rparr>,
          profile_fetch = Some (900, Rejected (Error ''Failed to fetch'')), fetch_first = True,
          tenant_fetch = None\<rparr>],
        unmount = Some 500\<rparr>)
   \<and> loading2_at 60000 \<lparr>mock = None, notifications = [], unmount = Some 500\<rparr>
   \<and> loading (provider1_at 60000 \<lparr>mock = None, notifications = [], unmount = Some 500\<rparr>)
   \<and> loading2_at 60000
       \<lparr>mock = Some \<lparr>user = None, session = None, profile = None, tenantId = None,
          loading = True\<rparr>,
        notifications = [], unmount = None\<rparr>
   \<and> loading (provider1_at 60000
       \<lparr>mock = Some \<lparr>user = None, session = None, profile = None, tenantId = None,
          loading = True\<rparr>,
        notifications = [], unmount = None\<rparr>)"
  by (simp add: provider_defs handler1_defs handler2_defs withTimeout_def schedule_def
      race_run_def withTimeout_init_def settle_def)

text \<open>
  With the provider mounted throughout, \<open>loading\<close> is still true one millisecond
  before the fetch deadline (variant 2) and before the timer's ceiling (variant 1).
\<close>

lemma loading_until_deadline:
  "loading2_at 3099
       \<lparr>mock = None,
        notifications = [\<lparr>at = 100,
          delivered = Some \<lparr>access_token = ''jwt'', user_session = Some \<lparr>id_user = ''u1''\<rparr>\<rparr>,
          profile_fetch = None, fetch_first = True, tenant_fetch = None\<rparr>],
        unmount = Some 60000\<rparr>
   \<and> loading (provider1_at 7999
       \<lparr>mock = None,
        notifications = [\<lparr>at = 100,
          delivered = Some \<lparr>access_token = ''jwt'', user_session = Some \<lparr>id_user = ''u1''\<rparr>\<rparr>,
          profile_fetch = None, fetch_first = True, tenant_fetch = None\<rparr>],
        unmount = Some 60000\<rparr>)"
  by (simp add: provider_defs handler1_defs handler2_defs withTimeout_def schedule_def
      race_run_def withTimeout_init_def settle_def)

text \<open>
  The handler catches whatever its \<^verbatim>\<open>try\<close> block throws, and in variant 2 the
  timeout wrapper settles, so the handler always returns.
\<close>

lemma handler2_never_throws: "snd (onAuthStateChange2_resume m outcome st) = None"
  by (auto simp: handler2_defs split: settlement.splits option.splits)

lemma handler1_never_throws: "fst (snd (onAuthStateChange1_resume m outcome st)) = None"
  by (auto simp: handler1_defs split: settlement.splits option.splits)

lemma onAuthStateChange2_completes:
  "\<exists>st'. onAuthStateChange2 b m m' sess fate st = Completed st' None"
proof (cases "snd (onAuthStateChange2_deliver m sess st)")
  case False
  then show ?thesis
    by (auto simp: onAuthStateChange2_def split: prod.splits)
next
  case True
  obtain t outcome where w: "withTimeout b fate 3000 (Error ''Profile fetch timed out'')
      = Some (t, outcome)"
    using withTimeout_settles [of b fate 3000 "Error ''Profile fetch timed out''"] by blast
  show ?thesis
    using True w handler2_never_throws
    by (auto simp: onAuthStateChange2_def split: prod.splits bool.splits) (metis snd_conv)
qed

lemma onAuthStateChange1_completes:
  "(\<exists>st'. onAuthStateChange1 m m' sess fate st = Completed st' None)
   \<or> (fate = None \<and> (\<exists>st'. onAuthStateChange1 m m' sess fate st = Suspended st'))"
proof (cases fate)
  case None
  then show ?thesis
    by (auto simp: onAuthStateChange1_def split: prod.splits bool.splits)
next
  case (Some a)
  obtain t outcome where "a = (t, outcome)" by (cases a)
  then show ?thesis
    using Some handler1_never_throws
    by (auto simp: onAuthStateChange1_def split: prod.splits bool.splits) (metis fst_conv snd_conv)
qed

text \<open>
  Claim C5, as amended. When the profile fetch fails (error payload, exception, or
  timeout) and the provider is still mounted when the handler sees the failure, the
  handler sets \<open>profile\<close> to null and \<open>loading\<close> to false; when the provider has
  unmounted in the meantime it leaves the state untouched. A fetch that does not settle
  within 3000 ms is such a failure in variant 2 (the handler then completes with the
  profile null and loading false); variant 1 has no timeout, and its handler stays
  suspended on a fetch that never settles. In no case does the handler throw: its run
  completes without an error, or (variant 1, fetch never settling) does not complete.
\<close>

theorem profile_failure_absorbed:
  assumes "fetch_failure outcome"
  shows "onAuthStateChange2_resume True outcome st = (st\<lparr>profile := None, loading := False\<rparr>, None)
    \<and> onAuthStateChange1_resume True outcome st
        = (st\<lparr>profile := None, loading := False\<rparr>, None, None)
    \<and> onAuthStateChange2_resume False outcome st = (st, None)
    \<and> onAuthStateChange1_resume False outcome st = (st, None, None)
    \<and> (session_user sess \<noteq> None \<and> (fate = None \<or> (\<exists>t s. fate = Some (t, s) \<and> 3000 < t))
        \<longrightarrow> onAuthStateChange2 b True True sess fate st
            = Completed (st\<lparr>session := sess, user := session_user sess, profile := None,
                loading := False\<rparr>) None)
    \<and> (\<exists>st'. onAuthStateChange2 b m m' sess fate st = Completed st' None)
    \<and> ((\<exists>st'. onAuthStateChange1 m m' sess fate st = Completed st' None)
        \<or> (fate = None \<and> (\<exists>st'. onAuthStateChange1 m m' sess fate st = Suspended st')))"
proof -
  have r2: "onAuthStateChange2_resume True outcome st
      = (st\<lparr>profile := None, loading := False\<rparr>, None)"
    and r1: "onAuthStateChange1_resume True outcome st
      = (st\<lparr>profile := None, loading := False\<rparr>, None, None)"
    and u2: "onAuthStateChange2_resume False outcome st = (st, None)"
    and u1: "onAuthStateChange1_resume False outcome st = (st, None, None)"
    using assms
    by (auto simp: fetch_failure_def handler1_defs handler2_defs split: settlement.splits)
  have timeout: "onAuthStateChange2 b True True sess fate st
            = Completed (st\<lparr>session := sess, user := session_user sess, profile := None,
                loading := False\<rparr>) None"
    if "session_user sess \<noteq> None" and "fate = None \<or> (\<exists>t s. fate = Some (t, s) \<and> 3000 < t)"
  proof -
    have "withTimeout b fate 3000 (Error ''Profile fetch timed out'')
        = Some (3000, Rejected (Error ''Profile fetch timed out''))"
      using that(2) by (auto simp: withTimeout_def schedule_def race_first_timer)
    then show ?thesis
      using that(1) by (simp add: onAuthStateChange2_def handler2_defs)
  qed
  show ?thesis
    using r2 r1 u2 u1 timeout onAuthStateChange2_completes onAuthStateChange1_completes
    by blast
qed

text \<open>The backend answers the profile query with an error payload.\<close>

theorem profile_failure_absorbed_witness:
  "fetch_failure (Resolved \<lparr>data = None, error = Some (PostgrestError ''PGRST116'')\<rparr>)
   \<and> onAuthStateChange2_resume True
        (Resolved \<lparr>data = None, error = Some (PostgrestError ''PGRST116'')\<rparr>) initial_state
      = (initial_state\<lparr>profile := None, loading := False\<rparr>, None)"
  using profile_failure_absorbed
    [of "Resolved \<lparr>data = None, error = Some (PostgrestError ''PGRST116'')\<rparr>" initial_state]
  by (simp add: fetch_failure_def)

text \<open>
  The claim as stated fails when the provider unmounts while the fetch is in flight: the
  fetch rejects after 500 ms, and the handler, in either variant, leaves \<open>loading\<close>
  true; a profile loaded earlier is not set to null either.
\<close>

theorem profile_failure_unmounted_counterexample:
  "fetch_failure (Rejected (Error ''Failed to fetch''))
   \<and> loading (state_of (onAuthStateChange2 True True False
        (Some \<lparr>access_token = ''jwt'', user_session = Some \<lparr>id_user = ''u1''\<rparr>\<rparr>)
        (Some (500, Rejected (Error ''Failed to fetch''))) initial_state))
   \<and> loading (state_of (onAuthStateChange1 True False
        (Some \<lparr>access_token = ''jwt'', user_session = Some \<lparr>id_user = ''u1''\<rparr>\<rparr>)
        (Some (500, Rejected (Error ''Failed to fetch''))) initial_state))
   \<and> profile (state_of (onAuthStateChange2 True True False
        (Some \<lparr>access_token = ''jwt'', user_session = Some \<lparr>id_user = ''u1''\<rparr>\<rparr>)
        (Some (500, Rejected (Error ''Failed to fetch'')))
        \<lparr>user = Some \<lparr>id_user = ''u1''\<rparr>,
         session = Some \<lparr>access_token = ''jwt'', user_session = Some \<lparr>id_user = ''u1''\<rparr>\<rparr>,
         profile = Some \<lparr>id_profile = ''p1'', role = Some ''restaurant_owner'', tenant_id = None\<rparr>,
         tenantId = None, loading = False\<rparr>))
     = Some \<lparr>id_profile = ''p1'', role = Some ''restaurant_owner'', tenant_id = None\<rparr>"
  by (simp add: fetch_failure_def onAuthStateChange2_def onAuthStateChange1_def handler1_defs
      handler2_defs session_user_def withTimeout_def schedule_def race_first_op)

section \<open>Properties of the tenant resolution\<close>

lemmas tenant_defs = resolveTenant_start_def resolveTenant_try_def resolveTenant_catch_def
  resolveTenant_resume_def tenant_policy_def tenant_of_def or_null_def

lemma resolveTenant_resume_policy:
  assumes "\<not> truthy (tenant_id p)" and "role p = Some ''restaurant_owner''"
  shows "resolveTenant_resume True outcome st
    = (st\<lparr>tenantId := tenant_policy (Some p) (tenant_of outcome)\<rparr>, None)"
  using assms by (cases outcome) (simp_all add: tenant_defs)

lemma resolveTenant_resume_superseded: "resolveTenant_resume False outcome st = (st, None)"
  by (cases outcome) (simp_all add: tenant_defs)

text \<open>
  The tenant resolution effect writes \<open>tenantId\<close> only, and the handlers of variant 2
  never write it.
\<close>

lemma resolveTenant_frame:
  "fst (resolveTenant_start m prof st) = st\<lparr>tenantId := tenantId (fst (resolveTenant_start m prof st))\<rparr>"
  "fst (resolveTenant_resume m outcome st)
     = st\<lparr>tenantId := tenantId (fst (resolveTenant_resume m outcome st))\<rparr>"
  by (auto simp: tenant_defs split: option.splits settlement.splits)

lemma handler2_frame:
  "tenantId (fst (onAuthStateChange2_deliver m sess st)) = tenantId st"
  "tenantId (fst (onAuthStateChange2_resume m outcome' st)) = tenantId st"
  by (auto simp: handler2_defs split: option.splits settlement.splits)

text \<open>
  Whatever the effect writes to \<open>tenantId\<close> is null or a non-empty identifier.
\<close>

lemma resolveTenant_writes_truthy:
  "tenantId (fst (resolveTenant_start True prof st)) \<noteq> tenantId st
     \<Longrightarrow> tenantId (fst (resolveTenant_start True prof st)) \<noteq> Some []"
  "tenantId (fst (resolveTenant_resume True outcome st)) \<noteq> Some []"
  by (auto simp: tenant_defs truthy_def split: option.splits settlement.splits if_splits)

text \<open>The cache on a hit and on a miss, as the effect sees it.\<close>

lemma executeRequest_fate_hit:
  "activeRequests d key = Some q \<Longrightarrow> executeRequest_fate key f fresh inflight d = (inflight q, d)"
  by (simp add: executeRequest_fate_def executeRequest_def)

lemma executeRequest_fate_miss:
  "activeRequests d key = None \<Longrightarrow>
   fst (executeRequest_fate key f fresh inflight d) = fresh
   \<and> invoked (snd (executeRequest_fate key f fresh inflight d))
       = invoked d @ [(key, f, next_promise d)]"
  by (simp add: executeRequest_fate_def executeRequest_def Let_def)

text \<open>Variant 1 writes \<open>tenantId\<close> in two places only.\<close>

lemma handler1_frame:
  "tenantId (fst (onAuthStateChange1_resume m outcome st)) = tenantId st"
  by (auto simp: handler1_defs split: option.splits settlement.splits)

lemma handler1_lookup_started:
  "snd (snd (onAuthStateChange1_resume True (Resolved \<lparr>data = Some p, error = None\<rparr>) st))
     = (if role p = Some RESTAURANT_OWNER then Some (id_profile p) else None)"
  by (simp add: handler1_defs)

text \<open>
  Claim C4, as amended. In variant 2 (\<^verbatim>\<open>resolveTenant\<close>), for every profile value:
  with no profile \<open>tenantId\<close> is set to null; (a) with a direct tenant reference (a
  non-empty \<^verbatim>\<open>tenant_id\<close>) it is set to that value; (c) with none and a role other than
  \<^verbatim>\<open>restaurant_owner\<close> it is set to null; (b) with none and the role
  \<^verbatim>\<open>restaurant_owner\<close> the lookup goes through the cache under the key
  \<^verbatim>\<open>tenant-lookup-<profile id>\<close> and through the timeout wrapper with 3000 ms, so it
  settles by then, and, if the run of the effect is still the current one when it does,
  \<open>tenantId\<close> is set to what the policy of the specification gives for the lookup's
  outcome (the row's identifier, or null for no row), null for every failure; a run
  superseded or unmounted by then leaves \<open>tenantId\<close> untouched. The failures are a
  rejected query, an error payload (the request function throws it) and a lookup not
  settled in time (the wrapper rejects). The run of the effect never throws. On a key in
  flight the cache hands the stored promise on and invokes nothing.
  Variant 1 does not follow the policy: its handler never reads \<^verbatim>\<open>tenant_id\<close>, starts
  a lookup (not deduplicated, not time-bounded) for a restaurant owner only, sets
  \<open>tenantId\<close> from a row that lookup finds while mounted, and otherwise leaves it as
  it was.
\<close>

theorem tenant_resolution_policy:
  fixes d :: "(string, tenant_ref option, err) dedup"
  shows "(prof = None \<longrightarrow>
            resolveTenant b m prof backend inflight (d, st)
              = (d, Completed (st\<lparr>tenantId := None\<rparr>) None))
    \<and> (prof = Some p \<and> truthy (tenant_id p) \<longrightarrow>
            resolveTenant b m prof backend inflight (d, st)
              = (d, Completed (st\<lparr>tenantId := tenant_id p\<rparr>) None))
    \<and> (prof = Some p \<and> \<not> truthy (tenant_id p) \<and> role p \<noteq> Some ''restaurant_owner'' \<longrightarrow>
            resolveTenant b m prof backend inflight (d, st)
              = (d, Completed (st\<lparr>tenantId := None\<rparr>) None))
    \<and> (prof = Some p \<and> \<not> truthy (tenant_id p) \<and> role p = Some ''restaurant_owner''
        \<and> executeRequest_fate (tenant_lookup_key p) (id_profile p) (tenant_request backend)
             inflight d = (lookup, d1) \<longrightarrow>
          (\<exists>t outcome.
              withTimeout b lookup 3000 (Error ''Tenant lookup timed out'') = Some (t, outcome)
            \<and> t \<le> 3000
            \<and> resolveTenant b True prof backend inflight (d, st)
                = (d1, Completed (st\<lparr>tenantId := tenant_policy prof (tenant_of outcome)\<rparr>) None)
            \<and> resolveTenant b False prof backend inflight (d, st) = (d1, Completed st None)))
    \<and> tenant_policy prof (Rejected e)
        = (case prof of None \<Rightarrow> None
           | Some q \<Rightarrow> if truthy (tenant_id q) then tenant_id q else None)
    \<and> tenant_request (Some (t0, Rejected e)) = Some (t0, Rejected e)
    \<and> tenant_request (Some (t0, Resolved \<lparr>data = row, error = Some e\<rparr>)) = Some (t0, Rejected e)
    \<and> withTimeout b (tenant_request None) 3000 (Error ''Tenant lookup timed out'')
        = Some (3000, Rejected (Error ''Tenant lookup timed out''))
    \<and> (activeRequests d (tenant_lookup_key p) = Some q \<longrightarrow>
          executeRequest_fate (tenant_lookup_key p) (id_profile p) (tenant_request backend)
            inflight d = (inflight q, d))
    \<and> tenantId (fst (onAuthStateChange1_resume m outcome1 st)) = tenantId st
    \<and> snd (snd (onAuthStateChange1_resume True (Resolved \<lparr>data = Some p, error = None\<rparr>) st))
        = (if role p = Some RESTAURANT_OWNER then Some (id_profile p) else None)
    \<and> tenant_lookup1 True (Resolved \<lparr>data = Some found, error = e1\<rparr>) st
        = (st\<lparr>tenantId := Some (id_ref found)\<rparr>, None)
    \<and> tenant_lookup1 m (Resolved \<lparr>data = None, error = e1\<rparr>) st = (st, None)
    \<and> tenant_lookup1 m (Rejected e) st = (st, None)"
proof -
  have none: "resolveTenant b m None backend inflight (d, st)
      = (d, Completed (st\<lparr>tenantId := None\<rparr>) None)"
    by (simp add: resolveTenant_def resolveTenant_start_def)
  have direct: "resolveTenant b m (Some p) backend inflight (d, st)
      = (d, Completed (st\<lparr>tenantId := tenant_id p\<rparr>) None)" if "truthy (tenant_id p)"
    using that by (simp add: resolveTenant_def resolveTenant_start_def)
  have other: "resolveTenant b m (Some p) backend inflight (d, st)
      = (d, Completed (st\<lparr>tenantId := None\<rparr>) None)"
    if "\<not> truthy (tenant_id p)" "role p \<noteq> Some ''restaurant_owner''"
    using that by (simp add: resolveTenant_def resolveTenant_start_def)
  have owner: "\<exists>t outcome.
              withTimeout b lookup 3000 (Error ''Tenant lookup timed out'') = Some (t, outcome)
            \<and> t \<le> 3000
            \<and> resolveTenant b True (Some p) backend inflight (d, st)
                = (d1, Completed (st\<lparr>tenantId := tenant_policy (Some p) (tenant_of outcome)\<rparr>)
                     None)
            \<and> resolveTenant b False (Some p) backend inflight (d, st) = (d1, Completed st None)"
    if nt: "\<not> truthy (tenant_id p)" and ro: "role p = Some ''restaurant_owner''"
      and lk: "executeRequest_fate (tenant_lookup_key p) (id_profile p) (tenant_request backend)
             inflight d = (lookup, d1)"
  proof -
    obtain t outcome where w: "withTimeout b lookup 3000 (Error ''Tenant lookup timed out'')
        = Some (t, outcome)" and t: "t \<le> 3000"
      using withTimeout_settles [of b lookup 3000 "Error ''Tenant lookup timed out''"] by blast
    have start: "resolveTenant_start True (Some p) st = (st, Some p)"
      using nt ro by (simp add: resolveTenant_start_def)
    have live: "resolveTenant b True (Some p) backend inflight (d, st)
        = (d1, Completed (st\<lparr>tenantId := tenant_policy (Some p) (tenant_of outcome)\<rparr>) None)"
      by (simp add: resolveTenant_def start lk w resolveTenant_resume_policy[OF nt ro])
    have dead: "resolveTenant b False (Some p) backend inflight (d, st) = (d1, Completed st None)"
      by (simp add: resolveTenant_def start lk w resolveTenant_resume_superseded)
    show ?thesis using w t live dead by blast
  qed
  have fail: "tenant_policy prof (Rejected e)
        = (case prof of None \<Rightarrow> None
           | Some q \<Rightarrow> if truthy (tenant_id q) then tenant_id q else None)"
    by (simp add: tenant_policy_def split: option.splits)
  have req: "tenant_request (Some (t0, Rejected e)) = Some (t0, Rejected e)"
    "tenant_request (Some (t0, Resolved \<lparr>data = row, error = Some e\<rparr>)) = Some (t0, Rejected e)"
    "withTimeout b (tenant_request None) 3000 (Error ''Tenant lookup timed out'')
        = Some (3000, Rejected (Error ''Tenant lookup timed out''))"
    by (simp_all add: tenant_request_def withTimeout_def schedule_def race_first_timer)
  have hit: "executeRequest_fate (tenant_lookup_key p) (id_profile p) (tenant_request backend)
            inflight d = (inflight q, d)" if "activeRequests d (tenant_lookup_key p) = Some q"
    using that by (rule executeRequest_fate_hit)
  have inline: "tenant_lookup1 True (Resolved \<lparr>data = Some found, error = e1\<rparr>) st
        = (st\<lparr>tenantId := Some (id_ref found)\<rparr>, None)"
    "tenant_lookup1 m (Resolved \<lparr>data = None, error = e1\<rparr>) st = (st, None)"
    "tenant_lookup1 m (Rejected e) st = (st, None)"
    by (simp_all add: tenant_lookup1_def)
  show ?thesis
    by (intro conjI impI)
      (use none direct other owner fail req hit inline handler1_frame handler1_lookup_started
        in \<open>blast+\<close>)
qed

text \<open>
  A restaurant owner with no direct reference whose lookup finds a row after 200 ms, and
  a staff member with a direct reference.
\<close>

theorem tenant_resolution_policy_witness:
  "tenantId (state_of (snd (resolveTenant True True
       (Some \<lparr>id_profile = ''p1'', role = Some ''restaurant_owner'', tenant_id = None\<rparr>)
       (Some (200, Resolved \<lparr>data = Some \<lparr>id_ref = ''tenant-a''\<rparr>, error = None\<rparr>))
       (\<lambda>q. None) (dedup_init, initial_state))))
     = Some ''tenant-a''
   \<and> resolveTenant True True
       (Some \<lparr>id_profile = ''p7'', role = Some ''staff'', tenant_id = Some ''tenant-s''\<rparr>)
       None (\<lambda>q. None) (dedup_init, initial_state)
     = (dedup_init, Completed (initial_state\<lparr>tenantId := Some ''tenant-s''\<rparr>) None)"
  using tenant_resolution_policy
    [of "Some \<lparr>id_profile = ''p1'', role = Some ''restaurant_owner'', tenant_id = None\<rparr>"
      True True "Some (200, Resolved \<lparr>data = Some \<lparr>id_ref = ''tenant-a''\<rparr>, error = None\<rparr>)"
      "\<lambda>q. None" dedup_init initial_state
      "\<lparr>id_profile = ''p1'', role = Some ''restaurant_owner'', tenant_id = None\<rparr>"]
    tenant_resolution_policy
    [of "Some \<lparr>id_profile = ''p7'', role = Some ''staff'', tenant_id = Some ''tenant-s''\<rparr>"
      True True None "\<lambda>q. None" dedup_init initial_state
      "\<lparr>id_profile = ''p7'', role = Some ''staff'', tenant_id = Some ''tenant-s''\<rparr>"]
  by (simp add: resolveTenant_def tenant_defs executeRequest_fate_def executeRequest_def
      dedup_init_def tenant_request_def tenant_lookup_key_def truthy_def Let_def
      withTimeout_def schedule_def race_first_op)

text \<open>
  The claim as stated fails on variant 1. A staff member whose profile carries the
  reference \<^verbatim>\<open>tenant-s\<close> signs in: the policy gives that tenant, the handler leaves
  \<open>tenantId\<close> null and starts no lookup. And an owner's lookup that fails leaves a
  \<open>tenantId\<close> set earlier in place, where the policy gives null.
\<close>

theorem tenant_policy_inline_counterexample:
  "tenant_policy (Some \<lparr>id_profile = ''p7'', role = Some ''staff'', tenant_id = Some ''tenant-s''\<rparr>)
       (Resolved None) = Some ''tenant-s''
   \<and> tenantId (state_of (onAuthStateChange1 True True
        (Some \<lparr>access_token = ''jwt'', user_session = Some \<lparr>id_user = ''u7''\<rparr>\<rparr>)
        (Some (300, Resolved
           \<lparr>data = Some \<lparr>id_profile = ''p7'', role = Some ''staff'', tenant_id = Some ''tenant-s''\<rparr>,
            error = None\<rparr>))
        initial_state)) = None
   \<and> snd (snd (onAuthStateChange1_resume True
        (Resolved
           \<lparr>data = Some \<lparr>id_profile = ''p7'', role = Some ''staff'', tenant_id = Some ''tenant-s''\<rparr>,
            error = None\<rparr>)
        initial_state)) = None
   \<and> tenant_policy (Some \<lparr>id_profile = ''p1'', role = Some ''restaurant_owner'', tenant_id = None\<rparr>)
       (Rejected (Error ''Failed to fetch'')) = None
   \<and> tenantId (fst (tenant_lookup1 True (Rejected (Error ''Failed to fetch''))
        \<lparr>user = Some \<lparr>id_user = ''u1''\<rparr>, session = None,
         profile = Some \<lparr>id_profile = ''p1'', role = Some ''restaurant_owner'', tenant_id = None\<rparr>,
         tenantId = Some ''tenant-old'', loading = False\<rparr>)) = Some ''tenant-old''"
  by (simp add: tenant_policy_def truthy_def onAuthStateChange1_def handler1_defs
      session_user_def RESTAURANT_OWNER_def)

end
